theory Spec2Isabelle
  imports Complex_Main
begin

section \<open>JavaScript numbers and strings\<close>

text \<open>
  The script \<^verbatim>\<open>static/js/main.js\<close> runs in a browser. Its scores are JavaScript
  Numbers: IEEE doubles, that is finite values, the two infinities and NaN. Every
  finite double is a real number and the comparisons of the script are exact, so a
  finite Number is modelled by the real it denotes (the theorems below hold for every
  real, in particular for every double). The literals 4.5 and 2.5 are doubles.
\<close>

datatype js_number = NaN | NegInf | Fin real | PosInf

text \<open>
  The relational operators of ECMAScript (IsLessThan): a comparison with NaN is
  undefined, and both \<^verbatim>\<open><\<close> and \<^verbatim>\<open><=\<close> turn undefined into false.
\<close>

fun js_lt :: "js_number \<Rightarrow> js_number \<Rightarrow> bool" where
  "js_lt NaN _ = False"
| "js_lt _ NaN = False"
| "js_lt PosInf _ = False"
| "js_lt _ NegInf = False"
| "js_lt NegInf _ = True"
| "js_lt _ PosInf = True"
| "js_lt (Fin x) (Fin y) = (x < y)"

definition js_gt :: "js_number \<Rightarrow> js_number \<Rightarrow> bool" where
  "js_gt a b = js_lt b a"

definition js_le :: "js_number \<Rightarrow> js_number \<Rightarrow> bool" where
  "js_le a b = (a \<noteq> NaN \<and> b \<noteq> NaN \<and> \<not> js_lt b a)"

text \<open>
  Strings are lists of bytes: the text of the source file as it is stored, in UTF-8.
  The three labels are Chinese words of two characters each:
  U+4E25 U+91CD (severe), U+4E2D U+7B49 (moderate), U+8F7B U+5FAE (minor).
\<close>

definition severe_label :: string where
  "severe_label = [CHR 0xE4, CHR 0xB8, CHR 0xA5, CHR 0xE9, CHR 0x87, CHR 0x8D]"

definition moderate_label :: string where
  "moderate_label = [CHR 0xE4, CHR 0xB8, CHR 0xAD, CHR 0xE7, CHR 0xAD, CHR 0x89]"

definition minor_label :: string where
  "minor_label = [CHR 0xE8, CHR 0xBD, CHR 0xBB, CHR 0xE5, CHR 0xBE, CHR 0xAE]"

section \<open>Bottleneck levels\<close>

text \<open>
  \<^verbatim>\<open>
  function getBottleneckLevelHTML(score) {
      if (score > 4.5) {
          return '<span class="text-danger">SEVERE</span>';
      } else if (score > 2.5) {
          return '<span class="text-warning">MODERATE</span>';
      } else {
          return '<span class="text-success">MINOR</span>';
      }
  }
  \<close>
  (SEVERE, MODERATE and MINOR stand for the three Chinese labels.)
\<close>

definition getBottleneckLevelHTML :: "js_number \<Rightarrow> string" where
  \<open>getBottleneckLevelHTML score =
     (if js_gt score (Fin 4.5) then ''<span class="text-danger">'' @ severe_label @ ''</span>''
      else if js_gt score (Fin 2.5) then ''<span class="text-warning">'' @ moderate_label @ ''</span>''
      else ''<span class="text-success">'' @ minor_label @ ''</span>'')\<close>

text \<open>
  \<^verbatim>\<open>
  function getBottleneckLevel(score) {
      if (score > 4.5) { return SEVERE; }
      else if (score > 2.5) { return MODERATE; }
      else { return MINOR; }
  }
  \<close>
\<close>

definition getBottleneckLevel :: "js_number \<Rightarrow> string" where
  "getBottleneckLevel score =
     (if js_gt score (Fin 4.5) then severe_label
      else if js_gt score (Fin 2.5) then moderate_label
      else minor_label)"

text \<open>The order of the levels: minor below moderate below severe.\<close>

definition severity :: "string \<Rightarrow> nat option" where
  "severity l =
     (if l = minor_label then Some 0
      else if l = moderate_label then Some 1
      else if l = severe_label then Some 2
      else None)"

text \<open>
  Reading the markup back: the text of the element is what stands between the first
  \<^verbatim>\<open>>\<close> and the next \<^verbatim>\<open><\<close>, its class what stands between the first two
  double quotes.
\<close>

definition span_text :: "string \<Rightarrow> string" where
  "span_text html =
     takeWhile (\<lambda>c. c \<noteq> CHR ''<'') (drop 1 (dropWhile (\<lambda>c. c \<noteq> CHR ''>'') html))"

definition span_class :: "string \<Rightarrow> string" where
  "span_class html =
     takeWhile (\<lambda>c. c \<noteq> CHR 0x22) (drop 1 (dropWhile (\<lambda>c. c \<noteq> CHR 0x22) html))"

section \<open>Dates of ECMAScript\<close>

text \<open>
  The two date functions of the script call the built-in \<^verbatim>\<open>Date\<close>. Its operations
  are modelled after the ECMAScript specification (section "Date Objects"), under the
  names used there. A time value is a count of milliseconds since 1970-01-01T00:00:00Z,
  or NaN for an invalid date: \<open>None\<close> is NaN. Time values, day numbers and the fields of
  a date are integral Numbers far below \<open>2 ^ 53\<close> in absolute value wherever a result
  is not NaN, so their double arithmetic is exact and \<open>int\<close> models it.
\<close>

type_synonym time_value = "int option"

definition msPerDay :: int where
  "msPerDay = 86400000"

definition Day :: "int \<Rightarrow> int" where
  "Day t = t div msPerDay"

definition TimeWithinDay :: "int \<Rightarrow> int" where
  "TimeWithinDay t = t mod msPerDay"

definition DaysInYear :: "int \<Rightarrow> int" where
  "DaysInYear y =
     (if y mod 4 \<noteq> 0 then 365
      else if y mod 100 \<noteq> 0 then 366
      else if y mod 400 \<noteq> 0 then 365
      else 366)"

definition DayFromYear :: "int \<Rightarrow> int" where
  "DayFromYear y =
     365 * (y - 1970) + (y - 1969) div 4 - (y - 1901) div 100 + (y - 1601) div 400"

definition TimeFromYear :: "int \<Rightarrow> int" where
  "TimeFromYear y = msPerDay * DayFromYear y"

text \<open>
  ECMAScript defines \<open>YearFromTime t\<close> as the largest \<open>y\<close> with \<open>TimeFromYear y \<le> t\<close>.
  The definition here computes it: an estimate from the mean length of a year (146097
  days in 400 years), corrected by at most one year. Lemma \<open>YearFromTime_largest\<close> below
  proves that it is the year of the specification.
\<close>

definition YearFromTime :: "int \<Rightarrow> int" where
  "YearFromTime t =
     (let y = 1970 + (400 * Day t) div 146097 in
      if t < TimeFromYear y then y - 1
      else if TimeFromYear (y + 1) \<le> t then y + 1
      else y)"

definition InLeapYear :: "int \<Rightarrow> int" where
  "InLeapYear t = (if DaysInYear (YearFromTime t) = 366 then 1 else 0)"

definition DayWithinYear :: "int \<Rightarrow> int" where
  "DayWithinYear t = Day t - DayFromYear (YearFromTime t)"

text \<open>The first day of month \<open>m\<close> (0 is January) within a year, \<open>l\<close> being 1 in a leap year.\<close>

definition MonthStart :: "int \<Rightarrow> int \<Rightarrow> int" where
  "MonthStart m l =
     (if m = 0 then 0 else if m = 1 then 31 else if m = 2 then 59 + l
      else if m = 3 then 90 + l else if m = 4 then 120 + l else if m = 5 then 151 + l
      else if m = 6 then 181 + l else if m = 7 then 212 + l else if m = 8 then 243 + l
      else if m = 9 then 273 + l else if m = 10 then 304 + l else 334 + l)"

definition MonthFromTime :: "int \<Rightarrow> int" where
  "MonthFromTime t =
     (let d = DayWithinYear t; l = InLeapYear t in
      if d < 31 then 0 else if d < 59 + l then 1 else if d < 90 + l then 2
      else if d < 120 + l then 3 else if d < 151 + l then 4 else if d < 181 + l then 5
      else if d < 212 + l then 6 else if d < 243 + l then 7 else if d < 273 + l then 8
      else if d < 304 + l then 9 else if d < 334 + l then 10 else 11)"

definition DateFromTime :: "int \<Rightarrow> int" where
  "DateFromTime t =
     (let d = DayWithinYear t; l = InLeapYear t; m = MonthFromTime t in
      if m = 0 then d + 1 else if m = 1 then d - 30 else if m = 2 then d - 58 - l
      else if m = 3 then d - 89 - l else if m = 4 then d - 119 - l
      else if m = 5 then d - 150 - l else if m = 6 then d - 180 - l
      else if m = 7 then d - 211 - l else if m = 8 then d - 242 - l
      else if m = 9 then d - 272 - l else if m = 10 then d - 303 - l
      else d - 333 - l)"

definition HourFromTime :: "int \<Rightarrow> int" where
  "HourFromTime t = (t div 3600000) mod 24"

definition MinFromTime :: "int \<Rightarrow> int" where
  "MinFromTime t = (t div 60000) mod 60"

definition SecFromTime :: "int \<Rightarrow> int" where
  "SecFromTime t = (t div 1000) mod 60"

definition msFromTime :: "int \<Rightarrow> int" where
  "msFromTime t = t mod 1000"

text \<open>
  \<open>MakeDay year month date\<close>: the day number of the first of the month (months beyond
  0..11 carry into the year), plus \<open>date - 1\<close>. Lemma \<open>MakeDay_first_of_month\<close>
  proves that the day it starts from has the year, the month and the date 1 that the
  specification asks for. The arguments are integers here, so the NaN results of the
  specification (an argument that is not finite) do not arise.
\<close>

definition MakeDay :: "int \<Rightarrow> int \<Rightarrow> int \<Rightarrow> int" where
  "MakeDay year month date =
     (let ym = year + month div 12;
          mn = month mod 12
      in DayFromYear ym + MonthStart mn (if DaysInYear ym = 366 then 1 else 0) + date - 1)"

definition MakeDate :: "int \<Rightarrow> int \<Rightarrow> int" where
  "MakeDate day time = day * msPerDay + time"

definition TimeClip :: "int \<Rightarrow> time_value" where
  "TimeClip time = (if \<bar>time\<bar> > 8640000000000000 then None else Some time)"

text \<open>
  The local time zone is the browser's, not the script's: \<open>tza t isUTC\<close> is the offset
  of local time from UTC in milliseconds (LocalTZA of the specification), at the UTC
  time \<open>t\<close> when \<open>isUTC\<close> and at the local time \<open>t\<close> otherwise. It is a parameter of
  everything that reads local time.
\<close>

type_synonym local_tza = "int \<Rightarrow> bool \<Rightarrow> int"

definition LocalTime :: "local_tza \<Rightarrow> int \<Rightarrow> int" where
  "LocalTime tza t = t + tza t True"

definition UTC :: "local_tza \<Rightarrow> int \<Rightarrow> int" where
  "UTC tza t = t - tza t False"

text \<open>\<^verbatim>\<open>new Date()\<close>: the date of the current time, \<open>now\<close> being the reading of the clock.\<close>

definition new_Date :: "int \<Rightarrow> time_value" where
  "new_Date now = Some now"

text \<open>\<^verbatim>\<open>date.getDate()\<close>: the day of the month in local time, NaN for an invalid date.\<close>

definition getDate :: "local_tza \<Rightarrow> time_value \<Rightarrow> int option" where
  "getDate tza tv = (case tv of None \<Rightarrow> None | Some t \<Rightarrow> Some (DateFromTime (LocalTime tza t)))"

text \<open>The subtraction of Numbers, on integral values and NaN.\<close>

definition js_minus :: "int option \<Rightarrow> int option \<Rightarrow> int option" where
  "js_minus a b =
     (case a of None \<Rightarrow> None | Some x \<Rightarrow> (case b of None \<Rightarrow> None | Some y \<Rightarrow> Some (x - y)))"

text \<open>
  \<^verbatim>\<open>date.setDate(dt)\<close> replaces the day of the month in local time and keeps the local
  time of day; the result is the new time value of the date object.
\<close>

definition setDate :: "local_tza \<Rightarrow> time_value \<Rightarrow> int option \<Rightarrow> time_value" where
  "setDate tza tv dt =
     (case tv of
        None \<Rightarrow> None
      | Some t0 \<Rightarrow>
          (case dt of
             None \<Rightarrow> None
           | Some d \<Rightarrow>
               (let t = LocalTime tza t0;
                    newDate = MakeDate (MakeDay (YearFromTime t) (MonthFromTime t) d) (TimeWithinDay t)
                in TimeClip (UTC tza newDate))))"

text \<open>
  Decimal fields of a fixed width, as the Date Time String Format has them: two digits
  for the month, the day, the hour, the minute and the second, three for the
  milliseconds, four for a year from 0 to 9999 and six, after a sign, for any other year.
\<close>

definition digit_char :: "int \<Rightarrow> char" where
  "digit_char d = ''0123456789'' ! nat d"

definition digits2 :: "int \<Rightarrow> string" where
  "digits2 k = [digit_char (k div 10 mod 10), digit_char (k mod 10)]"

definition digits3 :: "int \<Rightarrow> string" where
  "digits3 k = [digit_char (k div 100 mod 10), digit_char (k div 10 mod 10), digit_char (k mod 10)]"

definition digits4 :: "int \<Rightarrow> string" where
  "digits4 k = [digit_char (k div 1000 mod 10), digit_char (k div 100 mod 10),
                digit_char (k div 10 mod 10), digit_char (k mod 10)]"

definition digits6 :: "int \<Rightarrow> string" where
  "digits6 k = [digit_char (k div 100000 mod 10), digit_char (k div 10000 mod 10),
                digit_char (k div 1000 mod 10), digit_char (k div 100 mod 10),
                digit_char (k div 10 mod 10), digit_char (k mod 10)]"

definition year_string :: "int \<Rightarrow> string" where
  "year_string y =
     (if 0 \<le> y \<and> y \<le> 9999 then digits4 y
      else (if y < 0 then ''-'' else ''+'') @ digits6 \<bar>y\<bar>)"

datatype js_error = RangeError | ReferenceError

text \<open>
  \<^verbatim>\<open>date.toISOString()\<close>: the UTC date and time as
  \<^verbatim>\<open>YYYY-MM-DDTHH:mm:ss.sssZ\<close>; it throws a RangeError for an invalid date.
\<close>

definition toISOString :: "time_value \<Rightarrow> js_error + string" where
  "toISOString tv =
     (case tv of
        None \<Rightarrow> Inl RangeError
      | Some t \<Rightarrow>
          Inr (year_string (YearFromTime t) @ ''-'' @ digits2 (MonthFromTime t + 1) @ ''-''
               @ digits2 (DateFromTime t) @ ''T'' @ digits2 (HourFromTime t) @ '':''
               @ digits2 (MinFromTime t) @ '':'' @ digits2 (SecFromTime t) @ ''.''
               @ digits3 (msFromTime t) @ ''Z''))"

text \<open>
  \<^verbatim>\<open>s.split(sep)\<close> for a separator of one character: the pieces of \<open>s\<close> between the
  occurrences of the separator, at least one piece.
\<close>

fun split_js :: "char \<Rightarrow> string \<Rightarrow> string list" where
  "split_js sep [] = [[]]"
| "split_js sep (c # cs) =
     (if c = sep then [] # split_js sep cs
      else (case split_js sep cs of
              [] \<Rightarrow> [[c]]
            | p # ps \<Rightarrow> (c # p) # ps))"

text \<open>
  A value of the script: \<^verbatim>\<open>undefined\<close> (what an array gives outside its length, and
  what an argument left out is), a string, a Number or a boolean.
\<close>

datatype js_value = Undefined | Str string | Num js_number | Bool bool

definition element0 :: "string list \<Rightarrow> js_value" where
  "element0 arr = (case arr of [] \<Rightarrow> Undefined | x # _ \<Rightarrow> Str x)"

text \<open>
  The comparison \<^verbatim>\<open><\<close> of two strings: by code units, position by position, a proper
  prefix being smaller. (The date strings are ASCII, where bytes and code units agree.)
\<close>

fun js_string_lt :: "string \<Rightarrow> string \<Rightarrow> bool" where
  "js_string_lt [] [] = False"
| "js_string_lt [] (y # ys) = True"
| "js_string_lt (x # xs) [] = False"
| "js_string_lt (x # xs) (y # ys) =
     ((of_char x :: nat) < of_char y \<or> (x = y \<and> js_string_lt xs ys))"

text \<open>
  The shape \<^verbatim>\<open>YYYY-MM-DD\<close>: ten characters, digits but for the two hyphens.
\<close>

definition is_digit :: "char \<Rightarrow> bool" where
  "is_digit c = (48 \<le> (of_char c :: nat) \<and> (of_char c :: nat) \<le> 57)"

fun is_YYYY_MM_DD :: "string \<Rightarrow> bool" where
  "is_YYYY_MM_DD [y1, y2, y3, y4, h1, m1, m2, h2, d1, d2] =
     (is_digit y1 \<and> is_digit y2 \<and> is_digit y3 \<and> is_digit y4 \<and> h1 = CHR ''-''
      \<and> is_digit m1 \<and> is_digit m2 \<and> h2 = CHR ''-'' \<and> is_digit d1 \<and> is_digit d2)"
| "is_YYYY_MM_DD _ = False"

text \<open>
  The date portion of the ISO 8601 string of the time \<open>t\<close>: the year, the month and the
  day of the month of \<open>t\<close> in UTC.
\<close>

definition iso_date :: "int \<Rightarrow> string" where
  "iso_date t =
     year_string (YearFromTime t) @ ''-'' @ digits2 (MonthFromTime t + 1) @ ''-''
     @ digits2 (DateFromTime t)"

section \<open>Date ranges\<close>

text \<open>
  \<^verbatim>\<open>
  function formatDate(date) {
      return date.toISOString().split('T')[0];
  }
  \<close>
\<close>

definition formatDate :: "time_value \<Rightarrow> js_error + js_value" where
  "formatDate date =
     (case toISOString date of
        Inl e \<Rightarrow> Inl e
      | Inr s \<Rightarrow> Inr (element0 (split_js CHR ''T'' s)))"

text \<open>
  \<^verbatim>\<open>
  function getDateRange(days = 30) {
      const endDate = new Date();
      const startDate = new Date();
      startDate.setDate(startDate.getDate() - days);
      return {
          start_time: formatDate(startDate),
          end_time: formatDate(endDate)
      };
  }
  \<close>
  The argument is \<open>None\<close> when the caller leaves it out and the default applies. The
  function reads the clock twice: \<open>now_end\<close> is the first reading and \<open>now_start\<close> the
  second. An exception of \<open>formatDate\<close> leaves the function, the one of \<open>start_time\<close>
  first.
\<close>

record date_range =
  start_time :: js_value
  end_time :: js_value

definition getDateRange :: "local_tza \<Rightarrow> int \<Rightarrow> int \<Rightarrow> int option \<Rightarrow> js_error + date_range" where
  "getDateRange tza now_end now_start days_arg =
     (let days = (case days_arg of None \<Rightarrow> 30 | Some n \<Rightarrow> n);
          endDate = new_Date now_end;
          startDate = new_Date now_start;
          startDate' = setDate tza startDate (js_minus (getDate tza startDate) (Some days))
      in case formatDate startDate' of
           Inl e \<Rightarrow> Inl e
         | Inr s \<Rightarrow>
             (case formatDate endDate of
                Inl e \<Rightarrow> Inl e
              | Inr e \<Rightarrow> Inr \<lparr>start_time = s, end_time = e\<rparr>))"

text \<open>A zone at a fixed offset from UTC, such as UTC itself or China Standard Time.\<close>

definition fixed_zone :: "int \<Rightarrow> local_tza" where
  "fixed_zone off = (\<lambda>t isUTC. off)"

text \<open>
  A zone that changes its offset: Central European Time around the start of summer time
  on 2024-03-31 at 01:00 UTC, one hour ahead of UTC before it and two hours after. A local
  time is read with the offset that holds at that local time (the hour that the change
  skips, with the offset before the change). The examples below use it in March and
  April 2024 only; the other changes of the zone are left out.
\<close>

definition central_europe_2024 :: local_tza where
  "central_europe_2024 t isUTC =
     (if isUTC then (if 1711846800000 \<le> t then 7200000 else 3600000)
      else (if 1711846800000 + 7200000 \<le> t then 7200000 else 3600000))"

section \<open>The text of the classification\<close>

text \<open>
  Whether a function reads anything but its argument is a property of its text, so the
  text of \<^verbatim>\<open>getBottleneckLevel\<close> is modelled as well: the fragment of JavaScript it is
  written in, with the evaluation of ECMAScript. An identifier is looked up in the
  scope, which holds the parameter of the function and, around it, whatever the script
  and the browser define (variables, the clock, the document); an identifier that is
  not bound throws a ReferenceError. Evaluation goes from left to right.
\<close>

datatype js_expr =
    Identifier string
  | NumericLiteral real
  | StringLiteral string
  | Greater js_expr js_expr

datatype js_stmt =
    ReturnStmt js_expr
  | IfStmt js_expr js_stmt js_stmt

type_synonym js_scope = "string \<Rightarrow> js_value option"

text \<open>
  ToBoolean and ToNumber of ECMAScript. The conversion of a string to a Number is not
  modelled: \<open>None\<close> stands for a result outside the model.
\<close>

fun ToBoolean :: "js_value \<Rightarrow> bool" where
  "ToBoolean Undefined = False"
| "ToBoolean (Bool b) = b"
| "ToBoolean (Num n) = (n \<noteq> NaN \<and> n \<noteq> Fin 0)"
| "ToBoolean (Str s) = (s \<noteq> [])"

fun ToNumber :: "js_value \<Rightarrow> js_number option" where
  "ToNumber Undefined = Some NaN"
| "ToNumber (Bool b) = Some (Fin (if b then 1 else 0))"
| "ToNumber (Num n) = Some n"
| "ToNumber (Str s) = None"

text \<open>
  The operator \<^verbatim>\<open>>\<close> on two values that are not strings: the comparison of their
  Numbers. With a string operand (two strings are compared as strings, a single one is
  converted) the result is outside the model.
\<close>

definition js_greater :: "js_value \<Rightarrow> js_value \<Rightarrow> js_value option" where
  "js_greater a b =
     (case ToNumber a of
        None \<Rightarrow> None
      | Some x \<Rightarrow> (case ToNumber b of None \<Rightarrow> None | Some y \<Rightarrow> Some (Bool (js_gt x y))))"

fun eval_expr :: "js_scope \<Rightarrow> js_expr \<Rightarrow> (js_error + js_value) option" where
  "eval_expr scope (Identifier x) =
     (case scope x of None \<Rightarrow> Some (Inl ReferenceError) | Some v \<Rightarrow> Some (Inr v))"
| "eval_expr scope (NumericLiteral r) = Some (Inr (Num (Fin r)))"
| "eval_expr scope (StringLiteral s) = Some (Inr (Str s))"
| "eval_expr scope (Greater a b) =
     (case eval_expr scope a of
        None \<Rightarrow> None
      | Some (Inl e) \<Rightarrow> Some (Inl e)
      | Some (Inr x) \<Rightarrow>
          (case eval_expr scope b of
             None \<Rightarrow> None
           | Some (Inl e) \<Rightarrow> Some (Inl e)
           | Some (Inr y) \<Rightarrow> map_option Inr (js_greater x y)))"

text \<open>A statement of a function body gives the value that the function returns.\<close>

fun exec_stmt :: "js_scope \<Rightarrow> js_stmt \<Rightarrow> (js_error + js_value) option" where
  "exec_stmt scope (ReturnStmt e) = eval_expr scope e"
| "exec_stmt scope (IfStmt c s1 s2) =
     (case eval_expr scope c of
        None \<Rightarrow> None
      | Some (Inl e) \<Rightarrow> Some (Inl e)
      | Some (Inr v) \<Rightarrow> if ToBoolean v then exec_stmt scope s1 else exec_stmt scope s2)"

text \<open>
  \<^verbatim>\<open>
  function getBottleneckLevel(score) {
      if (score > 4.5) {
          return SEVERE;
      } else if (score > 2.5) {
          return MODERATE;
      } else {
          return MINOR;
      }
  }
  \<close>
  The body, and a call: the body runs in the scope of the script with the parameter
  \<^verbatim>\<open>score\<close> bound to the argument.
\<close>

definition getBottleneckLevel_body :: js_stmt where
  "getBottleneckLevel_body =
     IfStmt (Greater (Identifier ''score'') (NumericLiteral 4.5))
       (ReturnStmt (StringLiteral severe_label))
       (IfStmt (Greater (Identifier ''score'') (NumericLiteral 2.5))
          (ReturnStmt (StringLiteral moderate_label))
          (ReturnStmt (StringLiteral minor_label)))"

definition getBottleneckLevel_call :: "js_scope \<Rightarrow> js_value \<Rightarrow> (js_error + js_value) option" where
  "getBottleneckLevel_call scope arg =
     exec_stmt (scope(''score'' \<mapsto> arg)) getBottleneckLevel_body"

section \<open>The metric engine\<close>

text \<open>
  Modelled from the spec: the metric engine (\<^verbatim>\<open>efficiency_analyzer.py\<close> of the
  repository's description) is not among the source files. The definitions of this
  section follow section 4.2 of the specification: the ratios of one equipment unit
  over one window, every division guarded, a zero denominator or an empty window being
  the error \<open>InsufficientData\<close>. Ratios are real numbers here; the rounding of floating
  point is not modelled. The composite efficiency is left out: the specification leaves
  the formulas of its sub-scores open.
\<close>

datatype metric_error = SchemaMismatch | InsufficientData | ImputationExhausted

record window_totals =
  record_count :: nat
  planned_production_time :: real
  actual_run_time :: real
  ideal_cycle_time :: real
  total_count :: real
  good_count :: real
  total_calendar_time :: real

record MetricResult =
  availability :: real
  performance :: real
  quality :: real
  oee :: real
  teep :: real

definition guarded_div :: "real \<Rightarrow> real \<Rightarrow> metric_error + real" where
  "guarded_div n d = (if d = 0 then Inl InsufficientData else Inr (n / d))"

definition clamp01 :: "real \<Rightarrow> real" where
  "clamp01 x = max 0 (min 1 x)"

definition compute_metrics :: "window_totals \<Rightarrow> metric_error + MetricResult" where
  "compute_metrics w =
     (if record_count w = 0 then Inl InsufficientData
      else case guarded_div (actual_run_time w) (planned_production_time w) of
        Inl e \<Rightarrow> Inl e
      | Inr a \<Rightarrow>
      (case guarded_div (ideal_cycle_time w * total_count w) (actual_run_time w) of
        Inl e \<Rightarrow> Inl e
      | Inr p \<Rightarrow>
      (case guarded_div (good_count w) (total_count w) of
        Inl e \<Rightarrow> Inl e
      | Inr q \<Rightarrow>
      (case guarded_div (planned_production_time w) (total_calendar_time w) of
        Inl e \<Rightarrow> Inl e
      | Inr u \<Rightarrow>
          Inr \<lparr>availability = clamp01 a, performance = clamp01 p, quality = q,
               oee = clamp01 a * clamp01 p * q,
               teep = clamp01 a * clamp01 p * q * u\<rparr>))))"

section \<open>Properties of the bottleneck levels\<close>

lemma labels_distinct:
  "severe_label \<noteq> moderate_label" "severe_label \<noteq> minor_label"
  "moderate_label \<noteq> minor_label" "moderate_label \<noteq> severe_label"
  "minor_label \<noteq> severe_label" "minor_label \<noteq> moderate_label"
  by (simp_all add: severe_label_def moderate_label_def minor_label_def)

text \<open>
  C1. For every numeric score \<open>s\<close> (every Number but NaN), \<open>getBottleneckLevel s\<close> is the
  severe label exactly when \<open>s > 4.5\<close>, the moderate label exactly when \<open>2.5 < s\<close> and
  \<open>s \<le> 4.5\<close>, and the minor label exactly when \<open>s \<le> 2.5\<close>: first with the
  comparisons of JavaScript, the infinities included, then for a finite score \<open>x\<close> with
  the order of the reals. The inputs 4.6, 2.6 and 1.0 give severe, moderate and minor;
  the boundaries 4.5 and 2.5 give moderate and minor, the comparisons being strict. The
  last two inputs are the doubles that the literals 4.6 and 2.6 denote.
\<close>

theorem getBottleneckLevel_thresholds:
  assumes "s \<noteq> NaN"
  shows "(getBottleneckLevel s = severe_label) = js_gt s (Fin 4.5)
       \<and> (getBottleneckLevel s = moderate_label) = (js_lt (Fin 2.5) s \<and> js_le s (Fin 4.5))
       \<and> (getBottleneckLevel s = minor_label) = js_le s (Fin 2.5)
       \<and> (getBottleneckLevel (Fin x) = severe_label) = (x > 4.5)
       \<and> (getBottleneckLevel (Fin x) = moderate_label) = (2.5 < x \<and> x \<le> 4.5)
       \<and> (getBottleneckLevel (Fin x) = minor_label) = (x \<le> 2.5)
       \<and> getBottleneckLevel (Fin 4.6) = severe_label
       \<and> getBottleneckLevel (Fin 2.6) = moderate_label
       \<and> getBottleneckLevel (Fin 1.0) = minor_label
       \<and> getBottleneckLevel (Fin 4.5) = moderate_label
       \<and> getBottleneckLevel (Fin 2.5) = minor_label
       \<and> getBottleneckLevel (Fin (2589569785738035 / 2 ^ 49)) = severe_label
       \<and> getBottleneckLevel (Fin (5854679515581645 / 2 ^ 51)) = moderate_label"
proof -
  have general: "(getBottleneckLevel s = severe_label) = js_gt s (Fin 4.5)
       \<and> (getBottleneckLevel s = moderate_label) = (js_lt (Fin 2.5) s \<and> js_le s (Fin 4.5))
       \<and> (getBottleneckLevel s = minor_label) = js_le s (Fin 2.5)"
    using assms
    by (cases s) (auto simp add: getBottleneckLevel_def js_gt_def js_le_def labels_distinct)
  have finite: "(getBottleneckLevel (Fin x) = severe_label) = (x > 4.5)
       \<and> (getBottleneckLevel (Fin x) = moderate_label) = (2.5 < x \<and> x \<le> 4.5)
       \<and> (getBottleneckLevel (Fin x) = minor_label) = (x \<le> 2.5)"
    by (auto simp add: getBottleneckLevel_def js_gt_def labels_distinct)
  have examples: "getBottleneckLevel (Fin 4.6) = severe_label"
    "getBottleneckLevel (Fin 2.6) = moderate_label"
    "getBottleneckLevel (Fin 1.0) = minor_label"
    "getBottleneckLevel (Fin 4.5) = moderate_label"
    "getBottleneckLevel (Fin 2.5) = minor_label"
    "getBottleneckLevel (Fin (2589569785738035 / 2 ^ 49)) = severe_label"
    "getBottleneckLevel (Fin (5854679515581645 / 2 ^ 51)) = moderate_label"
    by (simp_all add: getBottleneckLevel_def js_gt_def)
  from general finite examples show ?thesis by simp
qed

theorem getBottleneckLevel_thresholds_witness:
  "Fin 3 \<noteq> NaN \<and> getBottleneckLevel (Fin 3) = moderate_label
   \<and> js_lt (Fin 2.5) (Fin 3) \<and> js_le (Fin 3) (Fin 4.5)"
  using getBottleneckLevel_thresholds [of "Fin 3"] by (simp add: js_le_def)

lemma getBottleneckLevel_call_Num:
  "getBottleneckLevel_call scope (Num s) = Some (Inr (Str (getBottleneckLevel s)))"
  by (simp add: getBottleneckLevel_call_def getBottleneckLevel_body_def js_greater_def
      getBottleneckLevel_def)

lemma getBottleneckLevel_call_any:
  "getBottleneckLevel_call scope v =
     (case ToNumber v of None \<Rightarrow> None | Some n \<Rightarrow> Some (Inr (Str (getBottleneckLevel n))))"
  by (cases "ToNumber v")
    (simp_all add: getBottleneckLevel_call_def getBottleneckLevel_body_def js_greater_def
      getBottleneckLevel_def)

text \<open>
  C2. The classification is deterministic, and reads no state but its score. Two calls
  of the function, in any two scopes (whatever the variables of the script, the clock
  and the document may hold in each, a variable named \<^verbatim>\<open>score\<close> included), with equal
  scores \<open>s1 = s2\<close>, return equal labels: the label that \<open>getBottleneckLevel\<close> computes
  from the score alone. The same holds for an argument \<open>v\<close> that is no Number.
\<close>

theorem getBottleneckLevel_deterministic:
  assumes "s1 = s2"
  shows "getBottleneckLevel_call scope1 (Num s1) = getBottleneckLevel_call scope2 (Num s2)
       \<and> getBottleneckLevel_call scope1 (Num s1) = Some (Inr (Str (getBottleneckLevel s1)))
       \<and> getBottleneckLevel_call scope1 v = getBottleneckLevel_call scope2 v"
proof -
  have "getBottleneckLevel_call scope1 v = getBottleneckLevel_call scope2 v"
    by (simp only: getBottleneckLevel_call_any)
  with assms show ?thesis by (simp add: getBottleneckLevel_call_Num)
qed

theorem getBottleneckLevel_deterministic_witness:
  "Fin 4.6 = Fin (46 / 10)
   \<and> getBottleneckLevel_call Map.empty (Num (Fin 4.6))
       = getBottleneckLevel_call [''score'' \<mapsto> Num (Fin 1), ''threshold'' \<mapsto> Num (Fin 9)]
           (Num (Fin (46 / 10)))
   \<and> getBottleneckLevel_call Map.empty (Num (Fin 4.6)) = Some (Inr (Str severe_label))"
proof -
  have e: "Fin 4.6 = Fin (46 / 10)" by simp
  have l: "getBottleneckLevel (Fin 4.6) = severe_label"
    by (simp add: getBottleneckLevel_def js_gt_def)
  from getBottleneckLevel_deterministic [OF e, of Map.empty
      "[''score'' \<mapsto> Num (Fin 1), ''threshold'' \<mapsto> Num (Fin 9)]"]
  have a: "getBottleneckLevel_call Map.empty (Num (Fin 4.6))
       = getBottleneckLevel_call [''score'' \<mapsto> Num (Fin 1), ''threshold'' \<mapsto> Num (Fin 9)]
           (Num (Fin (46 / 10)))"
    and b: "getBottleneckLevel_call Map.empty (Num (Fin 4.6))
       = Some (Inr (Str (getBottleneckLevel (Fin 4.6))))"
    by blast+
  from b have "getBottleneckLevel_call Map.empty (Num (Fin 4.6)) = Some (Inr (Str severe_label))"
    by (simp only: l)
  with e a show ?thesis by blast
qed

text \<open>
  C6. The markup and the text agree for every score (NaN and the infinities included):
  the text of the element returned by \<open>getBottleneckLevelHTML\<close> is the label returned
  by \<open>getBottleneckLevel\<close>, and the class is \<^verbatim>\<open>text-danger\<close> exactly for severe,
  \<^verbatim>\<open>text-warning\<close> exactly for moderate and \<^verbatim>\<open>text-success\<close> exactly for minor.
\<close>

theorem getBottleneckLevelHTML_agrees:
  "span_text (getBottleneckLevelHTML s) = getBottleneckLevel s
   \<and> (span_class (getBottleneckLevelHTML s) = ''text-danger'') = (getBottleneckLevel s = severe_label)
   \<and> (span_class (getBottleneckLevelHTML s) = ''text-warning'') = (getBottleneckLevel s = moderate_label)
   \<and> (span_class (getBottleneckLevelHTML s) = ''text-success'') = (getBottleneckLevel s = minor_label)"
  by (simp add: getBottleneckLevelHTML_def getBottleneckLevel_def span_text_def span_class_def
      labels_distinct)
    (simp add: severe_label_def moderate_label_def minor_label_def)

text \<open>
  C9. The classification is monotone: when \<open>s1 \<le> s2\<close>, the level of \<open>s1\<close> is at most
  the level of \<open>s2\<close> in the order minor, moderate, severe.
\<close>

theorem getBottleneckLevel_monotone:
  assumes "js_le s1 s2"
  shows "\<exists>a b. severity (getBottleneckLevel s1) = Some a
           \<and> severity (getBottleneckLevel s2) = Some b \<and> a \<le> b"
  using assms
  by (cases s1; cases s2)
    (auto simp add: getBottleneckLevel_def severity_def js_gt_def js_le_def labels_distinct)

theorem getBottleneckLevel_monotone_witness:
  "js_le (Fin 2) (Fin 5)
   \<and> (\<exists>a b. severity (getBottleneckLevel (Fin 2)) = Some a
           \<and> severity (getBottleneckLevel (Fin 5)) = Some b \<and> a \<le> b)
   \<and> severity (getBottleneckLevel (Fin 2)) = Some 0
   \<and> severity (getBottleneckLevel (Fin 5)) = Some 2"
proof -
  have h: "js_le (Fin 2) (Fin 5)" by (simp add: js_le_def)
  have v: "severity (getBottleneckLevel (Fin 2)) = Some 0"
    "severity (getBottleneckLevel (Fin 5)) = Some 2"
    by (simp_all add: getBottleneckLevel_def severity_def js_gt_def labels_distinct)
  from h v getBottleneckLevel_monotone [OF h] show ?thesis by simp
qed

text \<open>
  C10. The classification is total: every Number, inside the scale from 0 to 5 or not,
  gets one of the three labels. Every score \<open>s \<le> 2.5\<close> (negative ones too) is minor,
  every score \<open>s > 4.5\<close> (above 5 too) is severe, and an efficiency between 0 and 1
  passed by mistake is always minor. (NaN, which no comparison accepts, is minor too.)
\<close>

theorem getBottleneckLevel_total:
  "getBottleneckLevel s \<in> {severe_label, moderate_label, minor_label}
   \<and> (js_le s (Fin 2.5) \<longrightarrow> getBottleneckLevel s = minor_label)
   \<and> (js_gt s (Fin 4.5) \<longrightarrow> getBottleneckLevel s = severe_label)
   \<and> (0 \<le> x \<and> x \<le> 1 \<longrightarrow> getBottleneckLevel (Fin x) = minor_label)
   \<and> getBottleneckLevel NaN = minor_label"
  by (cases s) (auto simp add: getBottleneckLevel_def js_gt_def js_le_def)

theorem getBottleneckLevel_total_witness:
  "getBottleneckLevel (Fin (- 3)) \<in> {severe_label, moderate_label, minor_label}
   \<and> js_le (Fin (- 3)) (Fin 2.5) \<and> getBottleneckLevel (Fin (- 3)) = minor_label
   \<and> js_gt (Fin 7) (Fin 4.5) \<and> getBottleneckLevel (Fin 7) = severe_label
   \<and> (0::real) \<le> 0.8 \<and> (0.8::real) \<le> 1 \<and> getBottleneckLevel (Fin 0.8) = minor_label"
proof -
  have a: "js_le (Fin (- 3)) (Fin 2.5)" by (simp add: js_le_def)
  have b: "js_gt (Fin 7) (Fin 4.5)" by (simp add: js_gt_def)
  have c: "(0::real) \<le> 0.8 \<and> (0.8::real) \<le> 1" by simp
  from getBottleneckLevel_total [of "Fin (- 3)" "0.8"] a c
  have "getBottleneckLevel (Fin (- 3)) \<in> {severe_label, moderate_label, minor_label}"
    "getBottleneckLevel (Fin (- 3)) = minor_label" "getBottleneckLevel (Fin 0.8) = minor_label"
    by blast+
  moreover from getBottleneckLevel_total [of "Fin 7" 0] b
  have "getBottleneckLevel (Fin 7) = severe_label" by blast
  ultimately show ?thesis using a b c by blast
qed

section \<open>Integer division\<close>

lemma int_div_eqI: "0 < k \<Longrightarrow> k * q \<le> x \<Longrightarrow> x < k * q + k \<Longrightarrow> x div k = q" for x k q :: int
  using int_div_pos_eq [of x k q "x - k * q"] by simp

lemma int_mod_eqI: "0 < k \<Longrightarrow> k * q \<le> x \<Longrightarrow> x < k * q + k \<Longrightarrow> x mod k = x - k * q" for x k q :: int
  using int_mod_pos_eq [of x k q "x - k * q"] by simp

lemma div_bounds: "(0::int) < k \<Longrightarrow> k * (x div k) \<le> x \<and> x < k * (x div k) + k"
  by (metis add.commute add_less_cancel_right mult.commute div_mult_mod_eq pos_mod_bound pos_mod_sign le_add_same_cancel1)

lemma div_succ:
  fixes x k :: int
  assumes "0 < k"
  shows "(x + 1) div k = x div k + (if (x + 1) mod k = 0 then 1 else 0)"
proof -
  from div_bounds [OF assms, of x]
  have b: "k * (x div k) \<le> x" "x < k * (x div k) + k" by simp_all
  show ?thesis
  proof (cases "x + 1 = k * (x div k) + k")
    case True
    then have "x + 1 = k * (x div k + 1)" by (simp add: algebra_simps)
    then have "(x + 1) div k = x div k + 1" "(x + 1) mod k = 0"
      using assms by simp_all
    then show ?thesis by simp
  next
    case False
    with b have lt: "x + 1 < k * (x div k) + k" by simp
    from b have le: "k * (x div k) \<le> x + 1" by simp
    have d: "(x + 1) div k = x div k" by (rule int_div_eqI [OF assms le lt])
    have "(x + 1) mod k = x + 1 - k * (x div k)" by (rule int_mod_eqI [OF assms le lt])
    with b have "(x + 1) mod k \<noteq> 0" by simp
    with d show ?thesis by simp
  qed
qed

lemma mod_shift: "k dvd c \<Longrightarrow> (x - c) mod k = x mod k" for x k c :: int
  by (metis mod_diff_right_eq dvd_imp_mod_0 diff_zero)

lemma less_mult_iff_div_less: "0 < k \<Longrightarrow> (t < k * q) = (t div k < q)" for t k q :: int
proof -
  assume k: "0 < k"
  from div_bounds [OF k, of t] have b: "k * (t div k) \<le> t" "t < k * (t div k) + k" by simp_all
  show ?thesis
  proof
    assume "t < k * q"
    with b have "k * (t div k) < k * q" by linarith
    with k show "t div k < q" by (simp add: mult_less_cancel_left_pos)
  next
    assume "t div k < q"
    then have "t div k + 1 \<le> q" by simp
    with k have "k * (t div k + 1) \<le> k * q" by (simp only: mult_le_cancel_left_pos)
    with b show "t < k * q" by (simp add: algebra_simps)
  qed
qed

section \<open>The calendar\<close>

lemma DaysInYear_bounds: "365 \<le> DaysInYear y \<and> DaysInYear y \<le> 366"
  by (simp add: DaysInYear_def)

lemma leap_mod_100: "y mod 100 = 0 \<Longrightarrow> y mod 4 = 0" for y :: int
proof -
  assume "y mod 100 = 0"
  then have "100 dvd y" by (simp add: mod_eq_0_iff_dvd)
  moreover have "(4::int) dvd 100" by simp
  ultimately have "4 dvd y" by (rule dvd_trans [rotated])
  then show ?thesis by (simp add: mod_eq_0_iff_dvd)
qed

lemma leap_mod_400: "y mod 400 = 0 \<Longrightarrow> y mod 100 = 0" for y :: int
proof -
  assume "y mod 400 = 0"
  then have "400 dvd y" by (simp add: mod_eq_0_iff_dvd)
  moreover have "(100::int) dvd 400" by simp
  ultimately have "100 dvd y" by (rule dvd_trans [rotated])
  then show ?thesis by (simp add: mod_eq_0_iff_dvd)
qed

lemma DayFromYear_step: "DayFromYear (y + 1) = DayFromYear y + DaysInYear y"
proof -
  have s4: "(y - 1968) div 4 = (y - 1969) div 4 + (if y mod 4 = 0 then 1 else 0)"
    using div_succ [of 4 "y - 1969"] mod_shift [of 4 1968 y] by simp
  have s100: "(y - 1900) div 100 = (y - 1901) div 100 + (if y mod 100 = 0 then 1 else 0)"
    using div_succ [of 100 "y - 1901"] mod_shift [of 100 1900 y] by simp
  have s400: "(y - 1600) div 400 = (y - 1601) div 400 + (if y mod 400 = 0 then 1 else 0)"
    using div_succ [of 400 "y - 1601"] mod_shift [of 400 1600 y] by simp
  have "DayFromYear (y + 1) =
      365 * (y - 1969) + (y - 1968) div 4 - (y - 1900) div 100 + (y - 1600) div 400"
    by (simp add: DayFromYear_def)
  then show ?thesis
    using leap_mod_100 [of y] leap_mod_400 [of y]
    by (simp add: s4 s100 s400 DayFromYear_def DaysInYear_def)
qed

lemma DayFromYear_approx:
  "146097 * y - 287812290 \<le> 400 * DayFromYear y
   \<and> 400 * DayFromYear y \<le> 146097 * y - 287809890"
proof -
  define a where "a = (y - 1969) div 4"
  define b where "b = (y - 1901) div 100"
  define c where "c = (y - 1601) div 400"
  have a: "4 * a \<le> y - 1969" "y - 1969 < 4 * a + 4"
    using div_bounds [of 4 "y - 1969"] by (simp_all add: a_def)
  have b: "100 * b \<le> y - 1901" "y - 1901 < 100 * b + 100"
    using div_bounds [of 100 "y - 1901"] by (simp_all add: b_def)
  have c: "400 * c \<le> y - 1601" "y - 1601 < 400 * c + 400"
    using div_bounds [of 400 "y - 1601"] by (simp_all add: c_def)
  have "400 * DayFromYear y = 146000 * y - 287620000 + 400 * a - 400 * b + 400 * c"
    by (simp add: DayFromYear_def a_def b_def c_def)
  with a b c show ?thesis by (intro conjI) linarith+
qed

lemma TimeFromYear_less: "(t < TimeFromYear k) = (Day t < DayFromYear k)"
  by (simp add: TimeFromYear_def Day_def msPerDay_def less_mult_iff_div_less)

lemma TimeFromYear_le: "(TimeFromYear k \<le> t) = (DayFromYear k \<le> Day t)"
  using TimeFromYear_less [of t k] by linarith

lemma YearFromTime_bounds:
  "DayFromYear (YearFromTime t) \<le> Day t \<and> Day t < DayFromYear (YearFromTime t + 1)"
proof -
  define d where "d = Day t"
  define y where "y = 1970 + (400 * d) div 146097"
  define q where "q = (400 * d) div 146097"
  have q: "146097 * q \<le> 400 * d" "400 * d < 146097 * q + 146097"
    using div_bounds [of 146097 "400 * d"] by (simp_all add: q_def)
  have y: "y = 1970 + q" by (simp add: y_def q_def)
  have Y: "YearFromTime t =
      (if d < DayFromYear y then y - 1 else if DayFromYear (y + 1) \<le> d then y + 1 else y)"
    by (simp add: YearFromTime_def Let_def TimeFromYear_less TimeFromYear_le y_def d_def)
  define z where "z = y - 1"
  define w where "w = y + 2"
  have zw: "z = 1969 + q" "w = 1972 + q" by (simp_all add: z_def w_def y)
  have "DayFromYear z \<le> d"
    using DayFromYear_approx [of z] q zw by linarith
  then have lo: "DayFromYear (y - 1) \<le> d" by (simp add: z_def)
  have "d < DayFromYear w"
    using DayFromYear_approx [of w] q zw by linarith
  then have hi: "d < DayFromYear (y + 2)" by (simp add: w_def)
  have two: "y + 1 + 1 = y + 2" by simp
  show ?thesis
    using lo hi by (auto simp add: Y two d_def [symmetric])
qed

lemma DayFromYear_add: "DayFromYear y + 365 * int n \<le> DayFromYear (y + int n)"
proof (induction n)
  case 0
  show ?case by simp
next
  case (Suc n)
  have "y + int (Suc n) = y + int n + 1" by simp
  then have "DayFromYear (y + int (Suc n)) = DayFromYear (y + int n + 1)"
    by (rule arg_cong)
  also have "\<dots> = DayFromYear (y + int n) + DaysInYear (y + int n)"
    by (rule DayFromYear_step)
  finally show ?case
    using Suc.IH DaysInYear_bounds [of "y + int n"] by simp
qed

lemma DayFromYear_mono: "y1 \<le> y2 \<Longrightarrow> DayFromYear y1 \<le> DayFromYear y2"
proof -
  assume "y1 \<le> y2"
  then obtain n where "y2 = y1 + int n"
    by (metis zle_iff_zadd)
  with DayFromYear_add [of y1 n] show ?thesis by simp
qed

lemma YearFromTime_unique:
  assumes "DayFromYear y \<le> Day t" and "Day t < DayFromYear (y + 1)"
  shows "YearFromTime t = y"
proof (rule ccontr)
  assume neq: "YearFromTime t \<noteq> y"
  from YearFromTime_bounds [of t]
  have b: "DayFromYear (YearFromTime t) \<le> Day t" "Day t < DayFromYear (YearFromTime t + 1)"
    by simp_all
  from neq consider "YearFromTime t < y" | "y < YearFromTime t" by linarith
  then show False
  proof cases
    case 1
    then have "YearFromTime t + 1 \<le> y" by simp
    then have "DayFromYear (YearFromTime t + 1) \<le> DayFromYear y" by (rule DayFromYear_mono)
    with b assms show False by simp
  next
    case 2
    then have "y + 1 \<le> YearFromTime t" by simp
    then have "DayFromYear (y + 1) \<le> DayFromYear (YearFromTime t)" by (rule DayFromYear_mono)
    with b assms show False by simp
  qed
qed

text \<open>The computed year is the year of the specification: the largest one that has begun.\<close>

lemma YearFromTime_largest:
  "TimeFromYear (YearFromTime t) \<le> t \<and> (\<forall>y. TimeFromYear y \<le> t \<longrightarrow> y \<le> YearFromTime t)"
proof (intro conjI allI impI)
  show "TimeFromYear (YearFromTime t) \<le> t"
    using YearFromTime_bounds [of t] by (simp add: TimeFromYear_le)
next
  fix y
  assume "TimeFromYear y \<le> t"
  then have le: "DayFromYear y \<le> Day t" by (simp add: TimeFromYear_le)
  show "y \<le> YearFromTime t"
  proof (rule ccontr)
    assume "\<not> y \<le> YearFromTime t"
    then have "YearFromTime t + 1 \<le> y" by simp
    then have "DayFromYear (YearFromTime t + 1) \<le> DayFromYear y" by (rule DayFromYear_mono)
    with le YearFromTime_bounds [of t] show False by simp
  qed
qed

lemma InLeapYear_cases: "InLeapYear t = 0 \<or> InLeapYear t = 1"
  by (simp add: InLeapYear_def)

lemma DaysInYear_InLeapYear: "DaysInYear (YearFromTime t) = 365 + InLeapYear t"
  using DaysInYear_bounds [of "YearFromTime t"] by (simp add: InLeapYear_def)

lemma DayWithinYear_bounds: "0 \<le> DayWithinYear t \<and> DayWithinYear t < 365 + InLeapYear t"
  using YearFromTime_bounds [of t] DayFromYear_step [of "YearFromTime t"]
  by (simp add: DayWithinYear_def DaysInYear_InLeapYear)

lemma MonthFromTime_bounds: "0 \<le> MonthFromTime t \<and> MonthFromTime t \<le> 11"
  by (simp add: MonthFromTime_def Let_def)

lemma DateFromTime_MonthStart:
  "DateFromTime t = DayWithinYear t - MonthStart (MonthFromTime t) (InLeapYear t) + 1"
  by (simp add: DateFromTime_def MonthStart_def Let_def)

lemma Day_fields:
  "Day t = DayFromYear (YearFromTime t) + MonthStart (MonthFromTime t) (InLeapYear t)
           + DateFromTime t - 1"
  by (simp add: DateFromTime_MonthStart DayWithinYear_def)

lemma MonthFromTime_range:
  "MonthStart (MonthFromTime t) (InLeapYear t) \<le> DayWithinYear t
   \<and> DayWithinYear t < MonthStart (MonthFromTime t) (InLeapYear t) + 31"
  using DayWithinYear_bounds [of t] InLeapYear_cases [of t]
  by (auto simp add: MonthFromTime_def MonthStart_def Let_def)

lemma DateFromTime_bounds: "1 \<le> DateFromTime t \<and> DateFromTime t \<le> 31"
  using MonthFromTime_range [of t] by (simp add: DateFromTime_MonthStart)

lemma MakeDay_fields:
  "MakeDay (YearFromTime t) (MonthFromTime t) dt = Day t - DateFromTime t + dt"
proof -
  have m: "MonthFromTime t div 12 = 0" "MonthFromTime t mod 12 = MonthFromTime t"
    using MonthFromTime_bounds [of t] by simp_all
  show ?thesis
    using Day_fields [of t] by (simp add: MakeDay_def Let_def m InLeapYear_def)
qed

lemma MakeDate_Day: "MakeDate (Day t - n) (TimeWithinDay t) = t - n * msPerDay"
  by (simp add: MakeDate_def Day_def TimeWithinDay_def algebra_simps)

lemma Day_of_whole_days: "Day (d * msPerDay) = d"
  by (simp add: Day_def msPerDay_def)

lemma Day_shift: "Day (t - n * msPerDay) = Day t - n"
proof -
  have "t - n * msPerDay = t + (- n) * msPerDay" by simp
  then have "Day (t - n * msPerDay) = (t + (- n) * msPerDay) div msPerDay"
    by (simp only: Day_def)
  also have "\<dots> = (- n) + t div msPerDay"
    by (rule div_mult_self1) (simp add: msPerDay_def)
  finally show ?thesis by (simp add: Day_def)
qed

text \<open>
  \<open>setDate\<close> with the day of the month less \<open>n\<close> moves the date back by \<open>n\<close> days of 24
  hours and forward by what the offset of local time from UTC has gained since the local
  time \<open>n\<close> days earlier; a result beyond the range of dates is an invalid date.
\<close>

lemma setDate_offsets:
  assumes "tza t True = off_now" and "tza (t + off_now - n * msPerDay) False = off_then"
  shows "setDate tza (Some t) (js_minus (getDate tza (Some t)) (Some n))
         = TimeClip (t - n * msPerDay + (off_now - off_then))"
proof -
  have "MakeDate (MakeDay (YearFromTime (t + off_now)) (MonthFromTime (t + off_now))
          (DateFromTime (t + off_now) - n)) (TimeWithinDay (t + off_now))
        = MakeDate (Day (t + off_now) - n) (TimeWithinDay (t + off_now))"
    by (simp add: MakeDay_fields)
  also have "\<dots> = t + off_now - n * msPerDay" by (rule MakeDate_Day)
  finally have "setDate tza (Some t) (js_minus (getDate tza (Some t)) (Some n))
      = TimeClip (t + off_now - n * msPerDay - off_then)"
    using assms
    by (simp add: setDate_def getDate_def js_minus_def LocalTime_def UTC_def Let_def)
  moreover have "t + off_now - n * msPerDay - off_then = t - n * msPerDay + (off_now - off_then)"
    by simp
  ultimately show ?thesis by (simp only:)
qed

text \<open>
  The day that \<open>MakeDay\<close> starts from is the first of the month asked for, as the
  specification of \<open>MakeDay\<close> requires.
\<close>

lemma MonthStart_bounds:
  "0 \<le> m \<Longrightarrow> m \<le> 11 \<Longrightarrow> 0 \<le> l \<Longrightarrow> 0 \<le> MonthStart m l \<and> MonthStart m l \<le> 334 + l"
  by (simp add: MonthStart_def)

lemma month_cases:
  "0 \<le> m \<Longrightarrow> m \<le> 11 \<Longrightarrow>
   m = 0 \<or> m = 1 \<or> m = 2 \<or> m = 3 \<or> m = 4 \<or> m = 5 \<or> m = 6 \<or> m = 7 \<or> m = 8 \<or> m = 9
   \<or> m = 10 \<or> m = (11::int)"
  by arith

lemma MakeDay_first_of_month:
  fixes year month :: int
  defines "t \<equiv> MakeDay year month 1 * msPerDay"
  shows "YearFromTime t = year + month div 12 \<and> MonthFromTime t = month mod 12
         \<and> DateFromTime t = 1"
proof -
  define ym where "ym = year + month div 12"
  define mn where "mn = month mod 12"
  define l :: int where "l = (if DaysInYear ym = 366 then 1 else 0)"
  have mn: "0 \<le> mn" "mn \<le> 11" by (simp_all add: mn_def)
  have l: "l = 0 \<or> l = 1" "DaysInYear ym = 365 + l"
    using DaysInYear_bounds [of ym] by (auto simp add: l_def)
  have d: "Day t = DayFromYear ym + MonthStart mn l"
    by (simp add: t_def Day_of_whole_days MakeDay_def Let_def ym_def mn_def l_def)
  have ms: "0 \<le> MonthStart mn l" "MonthStart mn l \<le> 334 + l"
    using MonthStart_bounds [of mn l] mn l by auto
  have y: "YearFromTime t = ym"
  proof (rule YearFromTime_unique)
    show "DayFromYear ym \<le> Day t" using d ms by simp
    show "Day t < DayFromYear (ym + 1)"
      using d ms l by (simp add: DayFromYear_step)
  qed
  have leap: "InLeapYear t = l" by (simp add: InLeapYear_def y l_def)
  have dwy: "DayWithinYear t = MonthStart mn l" by (simp add: DayWithinYear_def y d)
  have m: "MonthFromTime t = mn"
    using month_cases [OF mn] l(1)
    by (elim disjE) (simp_all add: MonthFromTime_def Let_def dwy leap MonthStart_def)
  have "DateFromTime t = 1" by (simp add: DateFromTime_MonthStart m leap dwy)
  with y m show ?thesis by (simp add: ym_def mn_def)
qed

section \<open>Strings of dates\<close>

lemma digit_cases:
  "0 \<le> d \<Longrightarrow> d \<le> 9 \<Longrightarrow>
   d = 0 \<or> d = 1 \<or> d = 2 \<or> d = 3 \<or> d = 4 \<or> d = 5 \<or> d = 6 \<or> d = 7 \<or> d = 8 \<or> d = (9::int)"
  by arith

lemma digit_char_code: "0 \<le> d \<Longrightarrow> d \<le> 9 \<Longrightarrow> (of_char (digit_char d) :: nat) = 48 + nat d"
  by (drule (1) digit_cases) (elim disjE; simp add: digit_char_def)

lemma mod10_range: "0 \<le> k mod 10 \<and> k mod 10 \<le> 9" for k :: int
  using pos_mod_bound [of 10 k] pos_mod_sign [of 10 k] by simp

lemma digit_char_mod_code: "(of_char (digit_char (k mod 10)) :: nat) = 48 + nat (k mod 10)"
  using mod10_range [of k] by (simp add: digit_char_code)

lemma is_digit_digit_char: "is_digit (digit_char (k mod 10))"
  using mod10_range [of k] by (simp add: is_digit_def digit_char_mod_code)

lemma digit_char_not_T: "digit_char (k mod 10) \<noteq> CHR ''T''"
proof
  assume "digit_char (k mod 10) = CHR ''T''"
  then have "(of_char (digit_char (k mod 10)) :: nat) = of_char CHR ''T''" by simp
  then show False using mod10_range [of k] by (simp add: digit_char_mod_code)
qed

lemma no_T_digits:
  "CHR ''T'' \<notin> set (digits2 k)" "CHR ''T'' \<notin> set (digits4 k)" "CHR ''T'' \<notin> set (digits6 k)"
  using digit_char_not_T [symmetric]
  by (simp_all add: digits2_def digits4_def digits6_def)

lemma no_T_iso_date: "CHR ''T'' \<notin> set (iso_date t)"
  by (simp add: iso_date_def year_string_def no_T_digits)

lemma split_js_prefix: "sep \<notin> set a \<Longrightarrow> split_js sep (a @ sep # b) = a # split_js sep b"
  by (induction a) auto

lemma toISOString_Some:
  "toISOString (Some t) =
     Inr (iso_date t @ CHR ''T'' # digits2 (HourFromTime t) @ '':'' @ digits2 (MinFromTime t)
          @ '':'' @ digits2 (SecFromTime t) @ ''.'' @ digits3 (msFromTime t) @ ''Z'')"
  by (simp add: toISOString_def iso_date_def)

lemma formatDate_Some: "formatDate (Some t) = Inr (Str (iso_date t))"
  by (simp add: formatDate_def toISOString_Some split_js_prefix [OF no_T_iso_date] element0_def)

lemma formatDate_None: "formatDate None = Inl RangeError"
  by (simp add: formatDate_def toISOString_def)

lemma iso_date_four_digit_year:
  "0 \<le> YearFromTime t \<Longrightarrow> YearFromTime t \<le> 9999 \<Longrightarrow>
   iso_date t = digits4 (YearFromTime t) @ ''-'' @ digits2 (MonthFromTime t + 1) @ ''-''
                @ digits2 (DateFromTime t)"
  by (simp add: iso_date_def year_string_def)

lemma is_YYYY_MM_DD_fields: "is_YYYY_MM_DD (digits4 y @ ''-'' @ digits2 m @ ''-'' @ digits2 d)"
  by (simp add: digits4_def digits2_def is_digit_digit_char)

lemma is_YYYY_MM_DD_iso_date:
  "0 \<le> YearFromTime t \<Longrightarrow> YearFromTime t \<le> 9999 \<Longrightarrow> is_YYYY_MM_DD (iso_date t)"
  by (simp only: iso_date_four_digit_year is_YYYY_MM_DD_fields)

lemma length_iso_date:
  "length (iso_date t) = (if 0 \<le> YearFromTime t \<and> YearFromTime t \<le> 9999 then 10 else 13)"
  by (simp add: iso_date_def year_string_def digits4_def digits2_def digits6_def)

section \<open>The order of dates and of their strings\<close>

lemma DayFromYear_0: "DayFromYear 0 = - 719528"
  by (simp add: DayFromYear_def)

lemma DayFromYear_10000: "DayFromYear 10000 = 2932897"
  by (simp add: DayFromYear_def)

lemma four_digit_year_in_range:
  assumes "0 \<le> YearFromTime t" and "YearFromTime t \<le> 9999"
  shows "\<bar>t\<bar> \<le> 8640000000000000"
proof -
  from YearFromTime_bounds [of t]
  have b: "DayFromYear (YearFromTime t) \<le> Day t" "Day t < DayFromYear (YearFromTime t + 1)"
    by simp_all
  from assms(1) have "DayFromYear 0 \<le> DayFromYear (YearFromTime t)" by (rule DayFromYear_mono)
  with b have lo: "- 719528 \<le> Day t" by (simp add: DayFromYear_0)
  from assms(2) have "YearFromTime t + 1 \<le> 10000" by simp
  then have "DayFromYear (YearFromTime t + 1) \<le> DayFromYear 10000" by (rule DayFromYear_mono)
  with b have hi: "Day t < 2932897" by (simp add: DayFromYear_10000)
  define d where "d = t div 86400000"
  have "86400000 * d \<le> t" "t < 86400000 * d + 86400000"
    using div_bounds [of 86400000 t] by (simp_all add: d_def)
  moreover have "- 719528 \<le> d" "d < 2932897"
    using lo hi by (simp_all add: Day_def msPerDay_def d_def)
  ultimately show ?thesis by linarith
qed

lemma YearFromTime_mono: "Day a \<le> Day b \<Longrightarrow> YearFromTime a \<le> YearFromTime b"
proof (rule ccontr)
  assume le: "Day a \<le> Day b" and "\<not> YearFromTime a \<le> YearFromTime b"
  then have "YearFromTime b + 1 \<le> YearFromTime a" by simp
  then have "DayFromYear (YearFromTime b + 1) \<le> DayFromYear (YearFromTime a)"
    by (rule DayFromYear_mono)
  with le YearFromTime_bounds [of a] YearFromTime_bounds [of b] show False by simp
qed

lemma MonthFromTime_mono:
  assumes "YearFromTime a = YearFromTime b" and "DayWithinYear a \<le> DayWithinYear b"
  shows "MonthFromTime a \<le> MonthFromTime b"
proof -
  have l: "InLeapYear a = InLeapYear b" by (simp add: InLeapYear_def assms(1))
  show ?thesis
    using assms(2) by (simp add: MonthFromTime_def Let_def l)
qed

lemma date_fields_mono:
  assumes "Day a < Day b"
  shows "YearFromTime a < YearFromTime b
       \<or> (YearFromTime a = YearFromTime b
           \<and> (MonthFromTime a < MonthFromTime b
               \<or> (MonthFromTime a = MonthFromTime b \<and> DateFromTime a < DateFromTime b)))"
proof (cases "YearFromTime a = YearFromTime b")
  case False
  with YearFromTime_mono [of a b] assms show ?thesis by simp
next
  case y: True
  then have l: "InLeapYear a = InLeapYear b" by (simp add: InLeapYear_def)
  from y assms have d: "DayWithinYear a < DayWithinYear b" by (simp add: DayWithinYear_def)
  then have "MonthFromTime a \<le> MonthFromTime b"
    using MonthFromTime_mono [OF y] by simp
  moreover have "DateFromTime a < DateFromTime b" if "MonthFromTime a = MonthFromTime b"
    using that d by (simp add: DateFromTime_MonthStart l)
  ultimately show ?thesis using y by auto
qed

lemma js_string_lt_append_same: "js_string_lt (p @ r) (p @ s) = js_string_lt r s"
  by (induction p) simp_all

lemma js_string_lt_append:
  "length p = length q \<Longrightarrow> js_string_lt p q \<Longrightarrow> js_string_lt (p @ r) (q @ s)"
proof (induction p arbitrary: q)
  case Nil
  then show ?case by simp
next
  case (Cons x p)
  then obtain y q' where q: "q = y # q'" by (cases q) auto
  with Cons show ?case by auto
qed

lemma lt_div10:
  "x < y \<Longrightarrow> x div 10 < y div 10 \<or> (x div 10 = y div 10 \<and> x mod 10 < y mod 10)" for x y :: int
proof -
  assume lt: "x < y"
  then have "x div 10 \<le> y div 10" by (simp add: zdiv_mono1)
  moreover have "x mod 10 < y mod 10" if "x div 10 = y div 10"
    using lt that div_mult_mod_eq [of x 10] div_mult_mod_eq [of y 10] by linarith
  ultimately show ?thesis by linarith
qed

lemma digit_lt:
  "x mod 10 < y mod 10 \<Longrightarrow>
   (of_char (digit_char (x mod 10)) :: nat) < of_char (digit_char (y mod 10))" for x y :: int
  using mod10_range [of x] by (simp add: digit_char_mod_code)

lemma digits2_mono:
  fixes x y :: int
  assumes "x < y"
  shows "js_string_lt (digits2 x) (digits2 y) \<or> x div 100 < y div 100"
proof -
  have hundred: "x div 100 = x div 10 div 10" "y div 100 = y div 10 div 10"
    by (simp_all add: zdiv_zmult2_eq [symmetric])
  from lt_div10 [OF assms] show ?thesis
  proof
    assume a: "x div 10 < y div 10"
    from lt_div10 [OF a] show ?thesis
      by (auto simp add: digits2_def digit_lt hundred)
  next
    assume "x div 10 = y div 10 \<and> x mod 10 < y mod 10"
    then show ?thesis by (simp add: digits2_def digit_lt)
  qed
qed

lemma digits4_mono:
  fixes x y :: int
  assumes "x < y"
  shows "js_string_lt (digits4 x) (digits4 y) \<or> x div 10000 < y div 10000"
proof -
  have split4: "digits4 x = digits2 (x div 100) @ digits2 x" "digits4 y = digits2 (y div 100) @ digits2 y"
    by (simp_all add: digits4_def digits2_def zdiv_zmult2_eq [symmetric])
  have tenthousand: "x div 10000 = x div 100 div 100" "y div 10000 = y div 100 div 100"
    by (simp_all add: zdiv_zmult2_eq [symmetric])
  from digits2_mono [OF assms] show ?thesis
  proof
    assume lo: "js_string_lt (digits2 x) (digits2 y)"
    from assms have "x div 100 \<le> y div 100" by (simp add: zdiv_mono1)
    then consider "x div 100 = y div 100" | "x div 100 < y div 100" by linarith
    then show ?thesis
    proof cases
      case 1
      with lo show ?thesis by (simp add: split4 js_string_lt_append_same)
    next
      case 2
      from digits2_mono [OF 2] show ?thesis
        by (auto simp add: split4 tenthousand digits2_def intro: js_string_lt_append)
    qed
  next
    assume hi: "x div 100 < y div 100"
    from digits2_mono [OF hi] show ?thesis
      by (auto simp add: split4 tenthousand digits2_def intro: js_string_lt_append)
  qed
qed

lemma iso_date_mono:
  assumes lt: "Day a < Day b" and lo: "0 \<le> YearFromTime a" and hi: "YearFromTime b \<le> 9999"
  shows "js_string_lt (iso_date a) (iso_date b)"
proof -
  from lt have yy: "YearFromTime a \<le> YearFromTime b" by (simp add: YearFromTime_mono)
  with lo hi have ya: "0 \<le> YearFromTime a" "YearFromTime a \<le> 9999"
    and yb: "0 \<le> YearFromTime b" "YearFromTime b \<le> 9999" by simp_all
  have a: "iso_date a = digits4 (YearFromTime a) @ ''-'' @ digits2 (MonthFromTime a + 1) @ ''-''
      @ digits2 (DateFromTime a)"
    using ya by (rule iso_date_four_digit_year)
  have b: "iso_date b = digits4 (YearFromTime b) @ ''-'' @ digits2 (MonthFromTime b + 1) @ ''-''
      @ digits2 (DateFromTime b)"
    using yb by (rule iso_date_four_digit_year)
  have len4: "length (digits4 (YearFromTime a)) = length (digits4 (YearFromTime b))"
    by (simp add: digits4_def)
  have len2: "\<And>x y. length (digits2 x) = length (digits2 y)"
    by (simp add: digits2_def)
  from date_fields_mono [OF lt] consider
      (year) "YearFromTime a < YearFromTime b"
    | (month) "YearFromTime a = YearFromTime b" "MonthFromTime a < MonthFromTime b"
    | (day) "YearFromTime a = YearFromTime b" "MonthFromTime a = MonthFromTime b"
        "DateFromTime a < DateFromTime b"
    by blast
  then show ?thesis
  proof cases
    case year
    have "YearFromTime a div 10000 = 0" "YearFromTime b div 10000 = 0"
      using ya yb by simp_all
    with digits4_mono [OF year]
    have "js_string_lt (digits4 (YearFromTime a)) (digits4 (YearFromTime b))" by simp
    with len4 show ?thesis unfolding a b by (rule js_string_lt_append)
  next
    case month
    have "(MonthFromTime a + 1) div 100 = 0" "(MonthFromTime b + 1) div 100 = 0"
      using MonthFromTime_bounds [of a] MonthFromTime_bounds [of b] by simp_all
    moreover from month have "MonthFromTime a + 1 < MonthFromTime b + 1" by simp
    ultimately have "js_string_lt (digits2 (MonthFromTime a + 1)) (digits2 (MonthFromTime b + 1))"
      using digits2_mono [of "MonthFromTime a + 1" "MonthFromTime b + 1"] by simp
    with len2 have "js_string_lt (digits2 (MonthFromTime a + 1) @ ''-'' @ digits2 (DateFromTime a))
        (digits2 (MonthFromTime b + 1) @ ''-'' @ digits2 (DateFromTime b))"
      by (rule js_string_lt_append)
    then show ?thesis
      using js_string_lt_append_same [of "digits4 (YearFromTime b) @ ''-''"]
      by (simp add: a b month(1))
  next
    case day
    have "DateFromTime a div 100 = 0" "DateFromTime b div 100 = 0"
      using DateFromTime_bounds [of a] DateFromTime_bounds [of b] by simp_all
    with digits2_mono [OF day(3)]
    have "js_string_lt (digits2 (DateFromTime a)) (digits2 (DateFromTime b))" by simp
    then show ?thesis
      using js_string_lt_append_same
        [of "digits4 (YearFromTime b) @ ''-'' @ digits2 (MonthFromTime b + 1) @ ''-''"]
      by (simp add: a b day(1,2))
  qed
qed

lemma js_string_lt_asym: "js_string_lt a b \<Longrightarrow> \<not> js_string_lt b a"
proof (induction a arbitrary: b)
  case Nil
  then show ?case by (cases b) simp_all
next
  case (Cons x a)
  then show ?case by (cases b) auto
qed

lemma js_string_lt_irrefl: "\<not> js_string_lt a a"
  using js_string_lt_asym [of a a] by blast

text \<open>The date of a time depends on its day alone.\<close>

lemma YearFromTime_same_day: "Day a = Day b \<Longrightarrow> YearFromTime a = YearFromTime b"
  using YearFromTime_bounds [of b] by (intro YearFromTime_unique) simp_all

lemma iso_date_same_day:
  assumes "Day a = Day b"
  shows "iso_date a = iso_date b"
proof -
  have y: "YearFromTime a = YearFromTime b" using assms by (rule YearFromTime_same_day)
  have d: "DayWithinYear a = DayWithinYear b" by (simp add: DayWithinYear_def y assms)
  have l: "InLeapYear a = InLeapYear b" by (simp add: InLeapYear_def y)
  have m: "MonthFromTime a = MonthFromTime b" by (simp add: MonthFromTime_def d l)
  have "DateFromTime a = DateFromTime b" by (simp add: DateFromTime_MonthStart d l m)
  with y m show ?thesis by (simp add: iso_date_def)
qed

text \<open>
  Within the years 0 to 9999 the order of the date strings is the order of the days.
\<close>

lemma iso_date_less_iff:
  assumes a: "0 \<le> YearFromTime a" "YearFromTime a \<le> 9999"
    and b: "0 \<le> YearFromTime b" "YearFromTime b \<le> 9999"
  shows "js_string_lt (iso_date a) (iso_date b) = (Day a < Day b)"
proof
  assume lt: "js_string_lt (iso_date a) (iso_date b)"
  show "Day a < Day b"
  proof (rule ccontr)
    assume "\<not> Day a < Day b"
    then consider "Day a = Day b" | "Day b < Day a" by linarith
    then show False
    proof cases
      case 1
      then have "iso_date a = iso_date b" by (rule iso_date_same_day)
      with lt show False by (simp add: js_string_lt_irrefl)
    next
      case 2
      then have "js_string_lt (iso_date b) (iso_date a)"
        using b(1) a(2) by (rule iso_date_mono)
      with lt show False using js_string_lt_asym by blast
    qed
  qed
next
  assume "Day a < Day b"
  then show "js_string_lt (iso_date a) (iso_date b)"
    using a(1) b(2) by (rule iso_date_mono)
qed

section \<open>The date range\<close>

text \<open>
  The function reads the clock twice and the zone twice: the offset \<open>off_now\<close> of local
  time from UTC at the second reading of the clock, and the offset \<open>off_then\<close> at the local
  time \<open>days\<close> days earlier. The end is the UTC date of the first reading; the start is
  the UTC date of the second reading, moved back by \<open>days\<close> days of 24 hours and forward
  by \<open>off_now - off_then\<close>; a start beyond the range of dates is a RangeError.
\<close>

lemma getDateRange_two_readings:
  assumes days: "days = (case days_arg of None \<Rightarrow> 30 | Some n \<Rightarrow> n)"
    and zone: "tza now_start True = off_now"
      "tza (now_start + off_now - days * msPerDay) False = off_then"
    and start: "start = now_start - days * msPerDay + (off_now - off_then)"
  shows "getDateRange tza now_end now_start days_arg =
     (if \<bar>start\<bar> > 8640000000000000 then Inl RangeError
      else Inr \<lparr>start_time = Str (iso_date start), end_time = Str (iso_date now_end)\<rparr>)"
proof -
  have sd: "setDate tza (Some now_start)
      (js_minus (getDate tza (Some now_start)) (Some days)) = TimeClip start"
    unfolding start using zone by (rule setDate_offsets)
  have g: "getDateRange tza now_end now_start days_arg =
      (case formatDate (TimeClip start) of
         Inl e \<Rightarrow> Inl e
       | Inr x \<Rightarrow> Inr \<lparr>start_time = x, end_time = Str (iso_date now_end)\<rparr>)"
    unfolding getDateRange_def Let_def new_Date_def days [symmetric] sd
    by (simp only: formatDate_Some sum.case)
  show ?thesis
  proof (cases "\<bar>start\<bar> > 8640000000000000")
    case True
    then have "TimeClip start = None" by (simp add: TimeClip_def)
    with True show ?thesis by (simp add: g formatDate_None)
  next
    case False
    then have "TimeClip start = Some start" by (simp add: TimeClip_def)
    with False show ?thesis by (simp add: g formatDate_Some)
  qed
qed

lemma Day_add: "Day (t + n * msPerDay) = Day t + n"
proof -
  have "(t + n * msPerDay) div msPerDay = n + t div msPerDay"
    by (rule div_mult_self1) (simp add: msPerDay_def)
  then show ?thesis by (simp add: Day_def)
qed

lemma Day_start:
  "Day (now_start - days * msPerDay + (off_now - off_then))
     = Day (now_start + (off_now - off_then)) - days"
proof -
  have "now_start - days * msPerDay + (off_now - off_then)
      = now_start + (off_now - off_then) - days * msPerDay" by simp
  then show ?thesis by (simp only: Day_shift)
qed

text \<open>
  Where the offset changes, the start can be one day off: at 23:30 UTC on 2024-04-15,
  that is 01:30 on the 16th in Central Europe, the range of 30 days starts on 2024-03-17,
  29 days before its end, since local time was one hour nearer to UTC in March.
\<close>

lemma getDateRange_summer_time_example:
  "getDateRange central_europe_2024 1713223800000 1713223800000 (Some 30) =
     Inr \<lparr>start_time = Str ''2024-03-17'', end_time = Str ''2024-04-15''\<rparr>"
proof -
  have lt: "LocalTime central_europe_2024 1713223800000 = 1713231000000"
    by (simp add: LocalTime_def central_europe_2024_def)
  have y: "YearFromTime 1713231000000 = 2024"
    by (simp add: YearFromTime_def TimeFromYear_def DayFromYear_def Day_def msPerDay_def Let_def)
  have m: "MonthFromTime 1713231000000 = 3"
    by (simp add: MonthFromTime_def DayWithinYear_def InLeapYear_def y DayFromYear_def
        DaysInYear_def Day_def msPerDay_def Let_def)
  have dt: "DateFromTime 1713231000000 = 16"
    by (simp add: DateFromTime_def m DayWithinYear_def InLeapYear_def y DayFromYear_def
        DaysInYear_def Day_def msPerDay_def Let_def)
  have tw: "TimeWithinDay 1713231000000 = 5400000"
    by (simp add: TimeWithinDay_def msPerDay_def)
  have md: "MakeDate (MakeDay 2024 3 (- 14)) 5400000 = 1710639000000"
    by (simp add: MakeDate_def MakeDay_def MonthStart_def DayFromYear_def DaysInYear_def
        msPerDay_def Let_def)
  have u: "UTC central_europe_2024 1710639000000 = 1710635400000"
    by (simp add: UTC_def central_europe_2024_def)
  have g: "getDate central_europe_2024 (Some 1713223800000) = Some 16"
    by (simp add: getDate_def lt dt)
  have s: "setDate central_europe_2024 (Some 1713223800000) (Some (- 14)) = Some 1710635400000"
    by (simp add: setDate_def Let_def lt y m tw md u TimeClip_def)
  have d: "iso_date 1710635400000 = ''2024-03-17''" "iso_date 1713223800000 = ''2024-04-15''"
    by (simp_all add: iso_date_def year_string_def YearFromTime_def MonthFromTime_def
        DateFromTime_def DayWithinYear_def InLeapYear_def DaysInYear_def DayFromYear_def
        TimeFromYear_def Day_def msPerDay_def digits2_def digits4_def digit_char_def Let_def)
  show ?thesis
    by (simp add: getDateRange_def new_Date_def g js_minus_def s formatDate_Some d)
qed

section \<open>Properties of the date functions\<close>

text \<open>
  C3. For every date \<open>d\<close> whose UTC year lies between 0 and 9999 (such a
  date is valid), \<open>formatDate d\<close> returns exactly the date portion of the ISO 8601 string
  of \<open>d\<close>, the part before the \<^verbatim>\<open>T\<close>: ten characters of the shape \<^verbatim>\<open>YYYY-MM-DD\<close>, the
  year in four digits, the month from 01 and the day of the month in two, of the UTC
  calendar date of \<open>d\<close> (the day number of \<open>d\<close> is the one of that year, month and day),
  with no time component. For a valid date of another year the year is written with a
  sign and six digits, and the result has 13 characters: the date at the start of the
  year 10000 is the example.
\<close>

theorem formatDate_date_portion:
  assumes "0 \<le> YearFromTime t" and "YearFromTime t \<le> 9999"
  shows "\<bar>t\<bar> \<le> 8640000000000000
       \<and> formatDate (Some t) = Inr (Str (iso_date t))
       \<and> (\<exists>time. toISOString (Some t) = Inr (iso_date t @ ''T'' @ time) \<and> length time = 13)
       \<and> iso_date t = digits4 (YearFromTime t) @ ''-'' @ digits2 (MonthFromTime t + 1) @ ''-''
                        @ digits2 (DateFromTime t)
       \<and> length (iso_date t) = 10
       \<and> is_YYYY_MM_DD (iso_date t)
       \<and> 0 \<le> MonthFromTime t \<and> MonthFromTime t \<le> 11
       \<and> 1 \<le> DateFromTime t \<and> DateFromTime t \<le> 31
       \<and> Day t = MakeDay (YearFromTime t) (MonthFromTime t) (DateFromTime t)"
proof -
  have "\<exists>time. toISOString (Some t) = Inr (iso_date t @ ''T'' @ time) \<and> length time = 13"
    by (simp add: toISOString_Some digits2_def digits3_def)
  moreover have "length (iso_date t) = 10"
    using assms by (simp add: length_iso_date)
  moreover have "Day t = MakeDay (YearFromTime t) (MonthFromTime t) (DateFromTime t)"
    by (simp add: MakeDay_fields)
  ultimately show ?thesis
    using four_digit_year_in_range [OF assms] iso_date_four_digit_year [OF assms]
      is_YYYY_MM_DD_iso_date [OF assms] MonthFromTime_bounds [of t] DateFromTime_bounds [of t]
    by (simp only: formatDate_Some simp_thms)
qed

lemma fields_1730637296789:
  "YearFromTime 1730637296789 = 2024" "MonthFromTime 1730637296789 = 10"
  "DateFromTime 1730637296789 = 3" "iso_date 1730637296789 = ''2024-11-03''"
  by (simp_all add: iso_date_def year_string_def YearFromTime_def MonthFromTime_def
      DateFromTime_def DayWithinYear_def InLeapYear_def DaysInYear_def DayFromYear_def
      TimeFromYear_def Day_def msPerDay_def digits2_def digits4_def digit_char_def Let_def)

theorem formatDate_date_portion_witness:
  "0 \<le> YearFromTime 1730637296789 \<and> YearFromTime 1730637296789 \<le> 9999
   \<and> formatDate (Some 1730637296789) = Inr (Str ''2024-11-03'')
   \<and> toISOString (Some 1730637296789) = Inr ''2024-11-03T12:34:56.789Z''
   \<and> length ''2024-11-03'' = 10 \<and> is_YYYY_MM_DD ''2024-11-03''"
proof -
  have y: "0 \<le> YearFromTime 1730637296789" "YearFromTime 1730637296789 \<le> 9999"
    by (simp_all add: fields_1730637296789)
  have iso: "toISOString (Some 1730637296789) = Inr ''2024-11-03T12:34:56.789Z''"
    by (simp add: toISOString_Some fields_1730637296789 HourFromTime_def MinFromTime_def
        SecFromTime_def msFromTime_def digits2_def digits3_def digit_char_def)
  from formatDate_date_portion [OF y]
  have "formatDate (Some 1730637296789) = Inr (Str (iso_date 1730637296789))"
    and "length (iso_date 1730637296789) = 10" and "is_YYYY_MM_DD (iso_date 1730637296789)"
    by blast+
  then have "formatDate (Some 1730637296789) = Inr (Str ''2024-11-03'')"
    and "length ''2024-11-03'' = 10" and "is_YYYY_MM_DD ''2024-11-03''"
    by (simp_all only: fields_1730637296789)
  with y iso show ?thesis by blast
qed

theorem formatDate_year_10000_counterexample:
  "\<bar>253402300800000 :: int\<bar> \<le> 8640000000000000
   \<and> toISOString (Some 253402300800000) = Inr ''+010000-01-01T00:00:00.000Z''
   \<and> formatDate (Some 253402300800000) = Inr (Str ''+010000-01-01'')
   \<and> length ''+010000-01-01'' = 13
   \<and> \<not> is_YYYY_MM_DD ''+010000-01-01''"
proof -
  have d: "iso_date 253402300800000 = ''+010000-01-01''"
    by (simp add: iso_date_def year_string_def YearFromTime_def MonthFromTime_def
      DateFromTime_def DayWithinYear_def InLeapYear_def DaysInYear_def DayFromYear_def
      TimeFromYear_def Day_def msPerDay_def digits2_def digits6_def digit_char_def Let_def)
  have "toISOString (Some 253402300800000) = Inr ''+010000-01-01T00:00:00.000Z''"
    by (simp add: toISOString_Some d HourFromTime_def MinFromTime_def
        SecFromTime_def msFromTime_def digits2_def digits3_def digit_char_def)
  then show ?thesis by (simp add: formatDate_Some d)
qed

text \<open>
  One day back over the same change: at 23:30 UTC on 2024-03-31, that is 01:30 on the
  first of April in Central Europe, the range of one day starts on the day on which it
  ends.
\<close>

lemma getDateRange_summer_time_one_day_example:
  "getDateRange central_europe_2024 1711927800000 1711927800000 (Some 1) =
     Inr \<lparr>start_time = Str ''2024-03-31'', end_time = Str ''2024-03-31''\<rparr>"
proof -
  have d: "(1::int) = (case Some 1 of None \<Rightarrow> 30 | Some n \<Rightarrow> n)" by simp
  have z: "central_europe_2024 1711927800000 True = 7200000"
    "central_europe_2024 (1711927800000 + 7200000 - 1 * msPerDay) False = 3600000"
    by (simp_all add: central_europe_2024_def msPerDay_def)
  have s: "(1711845000000::int) = 1711927800000 - 1 * msPerDay + (7200000 - 3600000)"
    by (simp add: msPerDay_def)
  have f: "iso_date 1711845000000 = ''2024-03-31''" "iso_date 1711927800000 = ''2024-03-31''"
    by (simp_all add: iso_date_def year_string_def YearFromTime_def MonthFromTime_def
        DateFromTime_def DayWithinYear_def InLeapYear_def DaysInYear_def DayFromYear_def
        TimeFromYear_def Day_def msPerDay_def digits2_def digits4_def digit_char_def Let_def)
  from getDateRange_two_readings [OF d z s, of 1711927800000]
  show ?thesis by (simp add: f)
qed

text \<open>
  Two readings of the clock on either side of midnight UTC: the end is read in the last
  millisecond of 1970-01-01 and the start in the first of 1970-01-02, and the range of
  one day starts on the day on which it ends.
\<close>

lemma getDateRange_midnight_example:
  "getDateRange (fixed_zone 0) 86399999 86400000 (Some 1) =
     Inr \<lparr>start_time = Str ''1970-01-01'', end_time = Str ''1970-01-01''\<rparr>"
proof -
  have d: "(1::int) = (case Some 1 of None \<Rightarrow> 30 | Some n \<Rightarrow> n)" by simp
  have z: "fixed_zone 0 86400000 True = 0"
    "fixed_zone 0 (86400000 + 0 - 1 * msPerDay) False = 0"
    by (simp_all add: fixed_zone_def)
  have s: "(0::int) = 86400000 - 1 * msPerDay + (0 - 0)" by (simp add: msPerDay_def)
  have f: "iso_date 0 = ''1970-01-01''" "iso_date 86399999 = ''1970-01-01''"
    by (simp_all add: iso_date_def year_string_def YearFromTime_def MonthFromTime_def
        DateFromTime_def DayWithinYear_def InLeapYear_def DaysInYear_def DayFromYear_def
        TimeFromYear_def Day_def msPerDay_def digits2_def digits4_def digit_char_def Let_def)
  from getDateRange_two_readings [OF d z s, of 86399999]
  show ?thesis by (simp add: f)
qed

text \<open>The examples at 12:34:56.789 UTC on 2024-11-03, in China Standard Time.\<close>

lemma getDateRange_out_of_range_example:
  "getDateRange (fixed_zone 28800000) 1730637296789 1730637296789 (Some 200000000)
     = Inl RangeError"
proof -
  have d: "(200000000::int) = (case Some 200000000 of None \<Rightarrow> 30 | Some n \<Rightarrow> n)" by simp
  have z: "fixed_zone 28800000 1730637296789 True = 28800000"
    "fixed_zone 28800000 (1730637296789 + 28800000 - 200000000 * msPerDay) False = 28800000"
    by (simp_all add: fixed_zone_def)
  have s: "(- 17278269362703211::int)
      = 1730637296789 - 200000000 * msPerDay + (28800000 - 28800000)"
    by (simp add: msPerDay_def)
  from getDateRange_two_readings [OF d z s, of 1730637296789]
  show ?thesis by simp
qed

lemma getDateRange_year_10238_example:
  "getDateRange (fixed_zone 28800000) 1730637296789 1730637296789 (Some (- 3000000)) =
     Inr \<lparr>start_time = Str ''+010238-07-25'', end_time = Str ''2024-11-03''\<rparr>"
proof -
  have d: "(- 3000000::int) = (case Some (- 3000000) of None \<Rightarrow> 30 | Some n \<Rightarrow> n)" by simp
  have z: "fixed_zone 28800000 1730637296789 True = 28800000"
    "fixed_zone 28800000 (1730637296789 + 28800000 - (- 3000000) * msPerDay) False = 28800000"
    by (simp_all add: fixed_zone_def)
  have s: "(260930637296789::int)
      = 1730637296789 - (- 3000000) * msPerDay + (28800000 - 28800000)"
    by (simp add: msPerDay_def)
  have f: "iso_date 260930637296789 = ''+010238-07-25''"
    by (simp add: iso_date_def year_string_def YearFromTime_def MonthFromTime_def
        DateFromTime_def DayWithinYear_def InLeapYear_def DaysInYear_def DayFromYear_def
        TimeFromYear_def Day_def msPerDay_def digits2_def digits6_def digit_char_def Let_def)
  from getDateRange_two_readings [OF d z s, of 1730637296789]
  show ?thesis by (simp add: f fields_1730637296789)
qed

lemma getDateRange_zero_days_example:
  "getDateRange (fixed_zone 28800000) 1730637296789 1730637296789 (Some 0) =
     Inr \<lparr>start_time = Str ''2024-11-03'', end_time = Str ''2024-11-03''\<rparr>"
proof -
  have d: "(0::int) = (case Some 0 of None \<Rightarrow> 30 | Some n \<Rightarrow> n)" by simp
  have z: "fixed_zone 28800000 1730637296789 True = 28800000"
    "fixed_zone 28800000 (1730637296789 + 28800000 - 0 * msPerDay) False = 28800000"
    by (simp_all add: fixed_zone_def)
  have s: "(1730637296789::int) = 1730637296789 - 0 * msPerDay + (28800000 - 28800000)"
    by simp
  from getDateRange_two_readings [OF d z s, of 1730637296789]
  show ?thesis by (simp add: fields_1730637296789)
qed

lemma fields_1728045296790:
  "YearFromTime 1728045296790 = 2024" "iso_date 1728045296790 = ''2024-10-04''"
  by (simp_all add: iso_date_def year_string_def YearFromTime_def MonthFromTime_def
      DateFromTime_def DayWithinYear_def InLeapYear_def DaysInYear_def DayFromYear_def
      TimeFromYear_def Day_def msPerDay_def digits2_def digits4_def digit_char_def Let_def)

lemma fields_1713223800000:
  "YearFromTime 1713223800000 = 2024" "iso_date 1713223800000 = ''2024-04-15''"
  by (simp_all add: iso_date_def year_string_def YearFromTime_def MonthFromTime_def
      DateFromTime_def DayWithinYear_def InLeapYear_def DaysInYear_def DayFromYear_def
      TimeFromYear_def Day_def msPerDay_def digits2_def digits4_def digit_char_def Let_def)

lemma fields_1710635400001:
  "YearFromTime 1710635400001 = 2024" "iso_date 1710635400001 = ''2024-03-17''"
  by (simp_all add: iso_date_def year_string_def YearFromTime_def MonthFromTime_def
      DateFromTime_def DayWithinYear_def InLeapYear_def DaysInYear_def DayFromYear_def
      TimeFromYear_def Day_def msPerDay_def digits2_def digits4_def digit_char_def Let_def)

text \<open>
  C4. \<open>getDateRange\<close> reads the clock twice, \<open>now_end\<close> for the end and then \<open>now_start\<close>
  for the start, and the local zone twice: \<open>off_now\<close> is the offset of local time from UTC
  at \<open>now_start\<close>, \<open>off_then\<close> the offset at the local time \<open>days\<close> days earlier. Let the
  second reading, moved by \<open>off_now - off_then\<close>, fall on the same UTC day as the first:
  so it is when both readings fall on the same UTC day and the two offsets are equal, as
  in every zone at a fixed offset. Then for every integer \<open>days\<close> (30 when the argument
  is left out) such that the end and the start fall in the years 0 to 9999,
  \<open>getDateRange\<close> returns an object of exactly the two fields \<open>start_time\<close> and
  \<open>end_time\<close>, each a string of the shape \<^verbatim>\<open>YYYY-MM-DD\<close>: \<open>end_time\<close> is the UTC calendar
  date of the current time, and \<open>start_time\<close> the UTC calendar date exactly \<open>days\<close> days
  before it, across the ends of months and years. Each condition is needed: far enough
  back the start is no date any more and the function throws a RangeError, far enough
  ahead its year has six digits, over a change to summer time the range of 30 days has
  29, and with the two readings on either side of midnight the range of one day has
  none.
\<close>

theorem getDateRange_calendar_dates:
  assumes days: "days = (case days_arg of None \<Rightarrow> 30 | Some n \<Rightarrow> n)"
    and zone: "tza now_start True = off_now"
      "tza (now_start + off_now - days * msPerDay) False = off_then"
    and start: "start = now_start - days * msPerDay + (off_now - off_then)"
    and same_day: "Day (now_start + (off_now - off_then)) = Day now_end"
    and end_year: "0 \<le> YearFromTime now_end" "YearFromTime now_end \<le> 9999"
    and start_year: "0 \<le> YearFromTime start" "YearFromTime start \<le> 9999"
  shows "getDateRange tza now_end now_start days_arg =
           Inr \<lparr>start_time = Str (iso_date start), end_time = Str (iso_date now_end)\<rparr>
       \<and> is_YYYY_MM_DD (iso_date start)
       \<and> is_YYYY_MM_DD (iso_date now_end)
       \<and> Day start = Day now_end - days
       \<and> MakeDay (YearFromTime start) (MonthFromTime start) (DateFromTime start)
            = Day now_end - days
       \<and> MakeDay (YearFromTime now_end) (MonthFromTime now_end) (DateFromTime now_end)
            = Day now_end"
proof -
  have "\<not> \<bar>start\<bar> > 8640000000000000"
    using four_digit_year_in_range [OF start_year] by simp
  then have "getDateRange tza now_end now_start days_arg =
      Inr \<lparr>start_time = Str (iso_date start), end_time = Str (iso_date now_end)\<rparr>"
    by (simp add: getDateRange_two_readings [OF days zone start])
  moreover have "Day start = Day now_end - days"
    unfolding start by (simp only: Day_start same_day)
  ultimately show ?thesis
    using is_YYYY_MM_DD_iso_date [OF start_year] is_YYYY_MM_DD_iso_date [OF end_year]
    by (simp add: MakeDay_fields)
qed

theorem getDateRange_calendar_dates_witness:
  "(30::int) = (case None of None \<Rightarrow> 30 | Some n \<Rightarrow> n)
   \<and> fixed_zone 28800000 1730637296790 True = 28800000
   \<and> fixed_zone 28800000 (1730637296790 + 28800000 - 30 * msPerDay) False = 28800000
   \<and> (1728045296790::int) = 1730637296790 - 30 * msPerDay + (28800000 - 28800000)
   \<and> Day (1730637296790 + (28800000 - 28800000)) = Day 1730637296789
   \<and> 0 \<le> YearFromTime 1730637296789 \<and> YearFromTime 1730637296789 \<le> 9999
   \<and> 0 \<le> YearFromTime 1728045296790 \<and> YearFromTime 1728045296790 \<le> 9999
   \<and> getDateRange (fixed_zone 28800000) 1730637296789 1730637296790 None =
       Inr \<lparr>start_time = Str ''2024-10-04'', end_time = Str ''2024-11-03''\<rparr>
   \<and> is_YYYY_MM_DD ''2024-10-04'' \<and> is_YYYY_MM_DD ''2024-11-03''
   \<and> Day 1728045296790 = Day 1730637296789 - 30"
proof -
  have d: "(30::int) = (case None of None \<Rightarrow> 30 | Some n \<Rightarrow> n)" by simp
  have z: "fixed_zone 28800000 1730637296790 True = 28800000"
    "fixed_zone 28800000 (1730637296790 + 28800000 - 30 * msPerDay) False = 28800000"
    by (simp_all add: fixed_zone_def)
  have s: "(1728045296790::int) = 1730637296790 - 30 * msPerDay + (28800000 - 28800000)"
    by (simp add: msPerDay_def)
  have sd: "Day (1730637296790 + (28800000 - 28800000)) = Day 1730637296789"
    by (simp add: Day_def msPerDay_def)
  have e: "0 \<le> YearFromTime 1730637296789" "YearFromTime 1730637296789 \<le> 9999"
    by (simp_all add: fields_1730637296789)
  have b: "0 \<le> YearFromTime 1728045296790" "YearFromTime 1728045296790 \<le> 9999"
    by (simp_all add: fields_1728045296790)
  from getDateRange_calendar_dates [OF d z s sd e b]
  have "getDateRange (fixed_zone 28800000) 1730637296789 1730637296790 None =
      Inr \<lparr>start_time = Str (iso_date 1728045296790),
           end_time = Str (iso_date 1730637296789)\<rparr>"
    and "is_YYYY_MM_DD (iso_date 1728045296790)"
    and "is_YYYY_MM_DD (iso_date 1730637296789)"
    and day: "Day 1728045296790 = Day 1730637296789 - 30"
    by blast+
  then have "getDateRange (fixed_zone 28800000) 1730637296789 1730637296790 None =
      Inr \<lparr>start_time = Str ''2024-10-04'', end_time = Str ''2024-11-03''\<rparr>"
    and "is_YYYY_MM_DD ''2024-10-04''" and "is_YYYY_MM_DD ''2024-11-03''"
    by (simp_all only: fields_1730637296789 fields_1728045296790)
  with d z s sd e b day show ?thesis by blast
qed

theorem getDateRange_calendar_dates_counterexample:
  "getDateRange (fixed_zone 28800000) 1730637296789 1730637296789 (Some 200000000)
     = Inl RangeError
   \<and> getDateRange (fixed_zone 28800000) 1730637296789 1730637296789 (Some (- 3000000)) =
       Inr \<lparr>start_time = Str ''+010238-07-25'', end_time = Str ''2024-11-03''\<rparr>
   \<and> \<not> is_YYYY_MM_DD ''+010238-07-25''
   \<and> getDateRange central_europe_2024 1713223800000 1713223800000 (Some 30) =
       Inr \<lparr>start_time = Str ''2024-03-17'', end_time = Str ''2024-04-15''\<rparr>
   \<and> Day 1713223800000 - 30 = Day 1710547200000
   \<and> iso_date 1710547200000 = ''2024-03-16''
   \<and> getDateRange (fixed_zone 0) 86399999 86400000 (Some 1) =
       Inr \<lparr>start_time = Str ''1970-01-01'', end_time = Str ''1970-01-01''\<rparr>"
proof -
  have "Day 1713223800000 - 30 = Day 1710547200000"
    by (simp add: Day_def msPerDay_def)
  moreover have "iso_date 1710547200000 = ''2024-03-16''"
    by (simp add: iso_date_def year_string_def YearFromTime_def MonthFromTime_def
        DateFromTime_def DayWithinYear_def InLeapYear_def DaysInYear_def DayFromYear_def
        TimeFromYear_def Day_def msPerDay_def digits2_def digits4_def digit_char_def Let_def)
  ultimately show ?thesis
    using getDateRange_out_of_range_example getDateRange_year_10238_example
      getDateRange_summer_time_example getDateRange_midnight_example
    by simp
qed

text \<open>
  C5. With the readings and the offsets as above, every date range that \<open>getDateRange\<close>
  returns consists of the UTC date of \<open>start\<close> and the UTC date of the first reading,
  and \<open>start_time\<close> is strictly before \<open>end_time\<close> exactly when \<open>days\<close> is greater than
  the number of UTC days from the first reading to the second reading moved by
  \<open>off_now - off_then\<close>. So it is for every \<open>days\<close> of at least 1 (the default 30 among
  them) whenever both readings fall on the same UTC day and local time has gained at most
  \<open>days - 1\<close> days on UTC since the local time \<open>days\<close> days earlier: in every zone at a
  fixed offset, and for \<open>days\<close> of at least 2 over every change of offset of at most a
  day. Within the years 0 to 9999 the order of the dates is the order of the strings.
  Each condition is needed: for \<open>days = 0\<close> the two dates are equal, and so they are for
  \<open>days = 1\<close> with the two readings on either side of midnight or over a change to
  summer time.
\<close>

theorem getDateRange_start_before_end:
  assumes days: "days = (case days_arg of None \<Rightarrow> 30 | Some n \<Rightarrow> n)"
    and zone: "tza now_start True = off_now"
      "tza (now_start + off_now - days * msPerDay) False = off_then"
    and start: "start = now_start - days * msPerDay + (off_now - off_then)"
    and produced: "getDateRange tza now_end now_start days_arg = Inr r"
  shows "start_time r = Str (iso_date start) \<and> end_time r = Str (iso_date now_end)
       \<and> (Day start < Day now_end)
           = (Day (now_start + (off_now - off_then)) - Day now_end < days)
       \<and> (1 \<le> days \<and> Day now_start = Day now_end
            \<and> off_now - off_then \<le> (days - 1) * msPerDay
          \<longrightarrow> Day start < Day now_end)
       \<and> (0 \<le> YearFromTime start \<and> YearFromTime start \<le> 9999
            \<and> 0 \<le> YearFromTime now_end \<and> YearFromTime now_end \<le> 9999
          \<longrightarrow> js_string_lt (iso_date start) (iso_date now_end) = (Day start < Day now_end))"
proof -
  from produced have r: "r = \<lparr>start_time = Str (iso_date start), end_time = Str (iso_date now_end)\<rparr>"
    unfolding getDateRange_two_readings [OF days zone start]
    by (simp split: if_splits)
  have ds: "Day start = Day (now_start + (off_now - off_then)) - days"
    unfolding start by (rule Day_start)
  have iff: "(Day start < Day now_end)
      = (Day (now_start + (off_now - off_then)) - Day now_end < days)"
    unfolding ds by linarith
  have "Day start < Day now_end"
    if same: "Day now_start = Day now_end"
      and gain: "off_now - off_then \<le> (days - 1) * msPerDay"
  proof -
    have "now_start + (off_now - off_then) \<le> now_start + (days - 1) * msPerDay"
      using gain by simp
    then have "Day (now_start + (off_now - off_then)) \<le> Day (now_start + (days - 1) * msPerDay)"
      unfolding Day_def by (rule zdiv_mono1) (simp add: msPerDay_def)
    also have "Day (now_start + (days - 1) * msPerDay) = Day now_start + (days - 1)"
      by (rule Day_add)
    finally show ?thesis using same by (simp add: iff)
  qed
  moreover have "js_string_lt (iso_date start) (iso_date now_end) = (Day start < Day now_end)"
    if "0 \<le> YearFromTime start" "YearFromTime start \<le> 9999"
      "0 \<le> YearFromTime now_end" "YearFromTime now_end \<le> 9999"
    using that by (rule iso_date_less_iff)
  ultimately show ?thesis using iff by (simp add: r)
qed

theorem getDateRange_start_before_end_witness:
  "(30::int) = (case None of None \<Rightarrow> 30 | Some n \<Rightarrow> n)
   \<and> central_europe_2024 1713223800001 True = 7200000
   \<and> central_europe_2024 (1713223800001 + 7200000 - 30 * msPerDay) False = 3600000
   \<and> (1710635400001::int) = 1713223800001 - 30 * msPerDay + (7200000 - 3600000)
   \<and> getDateRange central_europe_2024 1713223800000 1713223800001 None =
       Inr \<lparr>start_time = Str ''2024-03-17'', end_time = Str ''2024-04-15''\<rparr>
   \<and> 1 \<le> (30::int) \<and> Day 1713223800001 = Day 1713223800000
   \<and> (7200000::int) - 3600000 \<le> (30 - 1) * msPerDay
   \<and> 0 \<le> YearFromTime 1710635400001 \<and> YearFromTime 1710635400001 \<le> 9999
   \<and> 0 \<le> YearFromTime 1713223800000 \<and> YearFromTime 1713223800000 \<le> 9999
   \<and> Day 1710635400001 < Day 1713223800000
   \<and> js_string_lt ''2024-03-17'' ''2024-04-15''"
proof -
  have d: "(30::int) = (case None of None \<Rightarrow> 30 | Some n \<Rightarrow> n)" by simp
  have z: "central_europe_2024 1713223800001 True = 7200000"
    "central_europe_2024 (1713223800001 + 7200000 - 30 * msPerDay) False = 3600000"
    by (simp_all add: central_europe_2024_def msPerDay_def)
  have s: "(1710635400001::int) = 1713223800001 - 30 * msPerDay + (7200000 - 3600000)"
    by (simp add: msPerDay_def)
  have p: "getDateRange central_europe_2024 1713223800000 1713223800001 None =
      Inr \<lparr>start_time = Str ''2024-03-17'', end_time = Str ''2024-04-15''\<rparr>"
    using getDateRange_two_readings [OF d z s, of 1713223800000]
    by (simp add: fields_1713223800000 fields_1710635400001)
  have c: "1 \<le> (30::int) \<and> Day 1713223800001 = Day 1713223800000
      \<and> (7200000::int) - 3600000 \<le> (30 - 1) * msPerDay"
    by (simp add: Day_def msPerDay_def)
  have y: "0 \<le> YearFromTime 1710635400001 \<and> YearFromTime 1710635400001 \<le> 9999
      \<and> 0 \<le> YearFromTime 1713223800000 \<and> YearFromTime 1713223800000 \<le> 9999"
    by (simp add: fields_1713223800000 fields_1710635400001)
  from getDateRange_start_before_end [OF d z s p] c y
  have lt: "Day 1710635400001 < Day 1713223800000"
    and "js_string_lt (iso_date 1710635400001) (iso_date 1713223800000)"
    by blast+
  then have "js_string_lt ''2024-03-17'' ''2024-04-15''"
    by (simp only: fields_1713223800000 fields_1710635400001)
  with d z s p c y lt show ?thesis by blast
qed

theorem getDateRange_start_before_end_counterexample:
  "getDateRange (fixed_zone 28800000) 1730637296789 1730637296789 (Some 0) =
     Inr \<lparr>start_time = Str ''2024-11-03'', end_time = Str ''2024-11-03''\<rparr>
   \<and> \<not> js_string_lt ''2024-11-03'' ''2024-11-03''
   \<and> getDateRange (fixed_zone 0) 86399999 86400000 (Some 1) =
       Inr \<lparr>start_time = Str ''1970-01-01'', end_time = Str ''1970-01-01''\<rparr>
   \<and> \<not> js_string_lt ''1970-01-01'' ''1970-01-01''
   \<and> getDateRange central_europe_2024 1711927800000 1711927800000 (Some 1) =
       Inr \<lparr>start_time = Str ''2024-03-31'', end_time = Str ''2024-03-31''\<rparr>
   \<and> \<not> js_string_lt ''2024-03-31'' ''2024-03-31''"
  using getDateRange_zero_days_example getDateRange_midnight_example
    getDateRange_summer_time_one_day_example
  by simp

section \<open>Properties of the metric engine\<close>

text \<open>
  C7. Every metric result has \<open>oee\<close> equal to the product of its availability, its
  performance and its quality: exactly, hence within the tolerance of \<open>10\<^sup>-\<^sup>9\<close>.
\<close>

theorem compute_metrics_oee:
  assumes "compute_metrics w = Inr r"
  shows "oee r = availability r * performance r * quality r
       \<and> \<bar>oee r - availability r * performance r * quality r\<bar> \<le> 1 / 10 ^ 9"
  using assms
  by (auto simp add: compute_metrics_def split: if_splits sum.splits)

theorem compute_metrics_oee_witness:
  "compute_metrics \<lparr>record_count = 12, planned_production_time = 480, actual_run_time = 400,
       ideal_cycle_time = 1, total_count = 350, good_count = 330, total_calendar_time = 1440\<rparr>
     = Inr \<lparr>availability = 5 / 6, performance = 7 / 8, quality = 33 / 35, oee = 11 / 16,
            teep = 11 / 48\<rparr>
   \<and> (11 / 16 :: real) = 5 / 6 * (7 / 8) * (33 / 35)"
proof -
  have c: "compute_metrics \<lparr>record_count = 12, planned_production_time = 480,
       actual_run_time = 400, ideal_cycle_time = 1, total_count = 350, good_count = 330,
       total_calendar_time = 1440\<rparr>
     = Inr \<lparr>availability = 5 / 6, performance = 7 / 8, quality = 33 / 35, oee = 11 / 16,
            teep = 11 / 48\<rparr>"
    by (simp add: compute_metrics_def guarded_div_def clamp01_def)
  from compute_metrics_oee [OF c] have "(11 / 16 :: real) = 5 / 6 * (7 / 8) * (33 / 35)"
    by simp
  with c show ?thesis by blast
qed

text \<open>
  C8. A window whose total count is zero has no metrics: the quality, and with it the
  whole computation, fails with \<open>InsufficientData\<close>; no 0 and no NaN is produced. Every
  division of the engine is guarded in the same way: a zero denominator anywhere (or
  a window without records) gives \<open>InsufficientData\<close>.
\<close>

theorem compute_metrics_zero_total_count:
  "(total_count w = 0 \<longrightarrow>
      guarded_div (good_count w) (total_count w) = Inl InsufficientData
      \<and> compute_metrics w = Inl InsufficientData)
   \<and> (record_count w = 0 \<or> planned_production_time w = 0 \<or> actual_run_time w = 0
        \<or> total_count w = 0 \<or> total_calendar_time w = 0 \<longrightarrow>
      compute_metrics w = Inl InsufficientData)
   \<and> guarded_div n 0 = Inl InsufficientData"
  by (simp add: compute_metrics_def guarded_div_def)

theorem compute_metrics_zero_total_count_witness:
  "total_count \<lparr>record_count = 12, planned_production_time = 480, actual_run_time = 400,
       ideal_cycle_time = 1, total_count = 0, good_count = 0, total_calendar_time = 1440\<rparr> = 0
   \<and> compute_metrics \<lparr>record_count = 12, planned_production_time = 480, actual_run_time = 400,
       ideal_cycle_time = 1, total_count = 0, good_count = 0, total_calendar_time = 1440\<rparr>
     = Inl InsufficientData"
proof -
  define w where "w = \<lparr>record_count = 12, planned_production_time = 480, actual_run_time = 400,
       ideal_cycle_time = 1, total_count = 0, good_count = 0, total_calendar_time = 1440 :: real\<rparr>"
  have z: "total_count w = 0" by (simp add: w_def)
  with compute_metrics_zero_total_count [of w 0]
  have "compute_metrics w = Inl InsufficientData" by blast
  with z show ?thesis unfolding w_def by blast
qed

end
